theory Spec2Isabelle
  imports Complex_Main
begin

section \<open>Conventions of the embedding\<close>

text \<open>
  The engine is C++. Its \<^verbatim>\<open>double\<close> and \<^verbatim>\<open>float\<close> values are modelled by the
  reals (exact arithmetic, every value finite), its \<^verbatim>\<open>int\<close> and \<^verbatim>\<open>size_t\<close> values
  by unbounded integers (all sizes are assumed to fit the machine types; signed
  overflow is undefined in C++ and is not modelled). A \<^verbatim>\<open>std::vector\<close> is a list,
  \<^verbatim>\<open>v[i]\<close> is list indexing; an access outside the vector is undefined behaviour
  in the source and every theorem that depends on an access states the
  hypotheses that keep it in range. Mutation is explicit state passing.
\<close>

subsection \<open>Arithmetic of the C++ library\<close>

text \<open>\<^verbatim>\<open>const double eps = 1e-10\<close> and \<^verbatim>\<open>MIN_MASS_THRESHOLD = 1e-10\<close>.\<close>

definition eps :: real where
  "eps = 1 / 10 ^ 10"

definition MIN_MASS_THRESHOLD :: real where
  "MIN_MASS_THRESHOLD = 1 / 10 ^ 10"

text \<open>\<^verbatim>\<open>static_cast<int>(x)\<close>: truncation towards zero.\<close>

definition static_cast_int :: "real \<Rightarrow> int" where
  "static_cast_int x = (if 0 \<le> x then \<lfloor>x\<rfloor> else \<lceil>x\<rceil>)"

text \<open>Integer division and remainder of C++ truncate towards zero.\<close>

definition c_div :: "int \<Rightarrow> int \<Rightarrow> int" where
  "c_div a b = sgn a * sgn b * (\<bar>a\<bar> div \<bar>b\<bar>)"

definition c_rem :: "int \<Rightarrow> int \<Rightarrow> int" where
  "c_rem a b = a - b * c_div a b"

text \<open>\<^verbatim>\<open>std::round\<close>: to the nearest integer, halves away from zero.\<close>

definition c_round :: "real \<Rightarrow> int" where
  "c_round x = (if 0 \<le> x then \<lfloor>x + 1 / 2\<rfloor> else \<lceil>x - 1 / 2\<rceil>)"

text \<open>\<^verbatim>\<open>std::isfinite\<close>: every real is finite.\<close>

definition isfinite :: "real \<Rightarrow> bool" where
  "isfinite x = True"

section \<open>The CDF engine: transport map and spectrum interpolation\<close>

subsection \<open>\<^verbatim>\<open>RealtimeAudioTransport::computeTransportMap\<close>\<close>

text \<open>
  The first loop adds up the two magnitude spectra over \<open>[0, num_bins)\<close>; the two
  running sums are independent, so each is a function of its own spectrum.
\<close>

definition spectrum_sum :: "int \<Rightarrow> real list \<Rightarrow> real" where
  "spectrum_sum num_bins mag = fold (\<lambda>i s. s + mag ! i) [0..<nat num_bins] 0"

text \<open>
  The second loop: \<^verbatim>\<open>cumsum += mag[i] / sum; cdf[i] = cumsum\<close>. The function
  returns the vector \<open>cdf\<close> written so far, given the running sum.
\<close>

fun cdf_loop :: "real list \<Rightarrow> real \<Rightarrow> nat list \<Rightarrow> real \<Rightarrow> real list" where
  "cdf_loop mag tot [] cumsum = []"
| "cdf_loop mag tot (i # js) cumsum =
     (cumsum + mag ! i / tot) # cdf_loop mag tot js (cumsum + mag ! i / tot)"

definition compute_cdf :: "int \<Rightarrow> real list \<Rightarrow> real list" where
  "compute_cdf num_bins mag =
     cdf_loop mag (max (spectrum_sum num_bins mag) eps) [0..<nat num_bins] 0"

text \<open>
  The binary search of the third loop, for one source bin; \<open>thr\<close> is
  \<^verbatim>\<open>cdf_X[i] - eps\<close>.
\<close>

function binary_search :: "real list \<Rightarrow> real \<Rightarrow> int \<Rightarrow> int \<Rightarrow> int \<Rightarrow> int" where
  "binary_search cdf_Y thr left right result =
     (if left \<le> right then
        (let mid = c_div (left + right) 2 in
         if cdf_Y ! nat mid \<ge> thr
         then binary_search cdf_Y thr left (mid - 1) mid
         else binary_search cdf_Y thr (mid + 1) right result)
      else result)"
  by pat_completeness auto

termination binary_search
proof (relation "measure (\<lambda>(cdf_Y, thr, left, right, result). nat (right - left + 1))")
  show "wf (measure (\<lambda>(cdf_Y, thr, left, right, result). nat (right - left + 1)))"
    by simp
next
  fix cdf_Y :: "real list" and thr :: real and left right result mid :: int
  assume le: "left \<le> right" and mid: "mid = c_div (left + right) 2"
  have "mid = (if 0 \<le> left + right then (left + right) div 2
               else - ((- (left + right)) div 2))"
    by (simp add: mid c_div_def sgn_if)
  with le have "left \<le> mid" and "mid \<le> right"
    by (auto split: if_splits)
  then show "((cdf_Y, thr, left, mid - 1, mid), (cdf_Y, thr, left, right, result))
      \<in> measure (\<lambda>(cdf_Y, thr, left, right, result). nat (right - left + 1))"
    and "((cdf_Y, thr, mid + 1, right, result), (cdf_Y, thr, left, right, result))
      \<in> measure (\<lambda>(cdf_Y, thr, left, right, result). nat (right - left + 1))"
    by simp_all
qed

declare binary_search.simps [simp del]

definition computeTransportMap :: "int \<Rightarrow> real list \<Rightarrow> real list \<Rightarrow> int list" where
  "computeTransportMap num_bins mag_X mag_Y =
     (let cdf_X = compute_cdf num_bins mag_X;
          cdf_Y = compute_cdf num_bins mag_Y
      in map (\<lambda>i. binary_search cdf_Y (cdf_X ! i - eps) 0 (num_bins - 1) (num_bins - 1))
           [0..<nat num_bins])"

subsection \<open>\<^verbatim>\<open>RealtimeAudioTransport::interpolateSpectrum\<close>\<close>

text \<open>
  The accumulators of the deposit loop are the vectors \<^verbatim>\<open>mag_out\<close>,
  \<^verbatim>\<open>weight_sum\<close> and \<^verbatim>\<open>phase_num\<close>.
\<close>

type_synonym deposit_acc = "real list \<times> real list \<times> real list"

definition accumulate :: "deposit_acc \<Rightarrow> int \<Rightarrow> real \<Rightarrow> real \<Rightarrow> deposit_acc" where
  "accumulate acc bin weight phase =
     (case acc of (mag_out, weight_sum, phase_num) \<Rightarrow>
        (mag_out[nat bin := mag_out ! nat bin + weight],
         weight_sum[nat bin := weight_sum ! nat bin + weight],
         phase_num[nat bin := phase_num ! nat bin + weight * phase]))"

text \<open>One iteration of the deposit loop, for the source bin \<open>i\<close>.\<close>

definition deposit_bin ::
  "int \<Rightarrow> real list \<Rightarrow> real list \<Rightarrow> real list \<Rightarrow> real \<Rightarrow> int list \<Rightarrow> nat \<Rightarrow> deposit_acc \<Rightarrow> deposit_acc"
where
  "deposit_bin num_bins mag_X phase_X mag_Y k transport_map i acc =
     (let target_pos = (1 - k) * real i + k * real_of_int (transport_map ! i);
          target_idx = transport_map ! i;
          interp_mag = (1 - k) * mag_X ! i + k * mag_Y ! nat target_idx;
          low_bin0 = \<lfloor>target_pos\<rfloor>;
          high_bin0 = \<lceil>target_pos\<rceil>;
          frac = target_pos - real_of_int low_bin0;
          low_bin = max 0 (min low_bin0 (num_bins - 1));
          high_bin = max 0 (min high_bin0 (num_bins - 1));
          acc1 = (if low_bin < num_bins
                  then accumulate acc low_bin ((1 - frac) * interp_mag) (phase_X ! i)
                  else acc)
      in if high_bin < num_bins \<and> high_bin \<noteq> low_bin
         then accumulate acc1 high_bin (frac * interp_mag) (phase_X ! i)
         else acc1)"

text \<open>The last loop: the phase of the output bin \<open>i\<close>.\<close>

definition normalize_phase :: "real list \<Rightarrow> real list \<Rightarrow> real list \<Rightarrow> nat \<Rightarrow> real" where
  "normalize_phase weight_sum phase_num phase_Y i =
     (if weight_sum ! i > eps then phase_num ! i / weight_sum ! i else phase_Y ! i)"

text \<open>\<^verbatim>\<open>interpolateSpectrum\<close> returns \<^verbatim>\<open>mag_out\<close> and \<^verbatim>\<open>phase_out\<close>.\<close>

definition interpolateSpectrum ::
  "int \<Rightarrow> real list \<Rightarrow> real list \<Rightarrow> real list \<Rightarrow> real list \<Rightarrow> real \<Rightarrow> real list \<times> real list"
where
  "interpolateSpectrum num_bins mag_X phase_X mag_Y phase_Y k =
     (let transport_map = computeTransportMap num_bins mag_X mag_Y
      in case fold (deposit_bin num_bins mag_X phase_X mag_Y k transport_map)
                [0..<nat num_bins]
                (replicate (nat num_bins) 0, replicate (nat num_bins) eps,
                 replicate (nat num_bins) 0) of
           (mag_out, weight_sum, phase_num) \<Rightarrow>
             (mag_out, map (normalize_phase weight_sum phase_num phase_Y) [0..<nat num_bins]))"

section \<open>The reassignment algorithm: masses, matcher and placement\<close>

subsection \<open>Spectral points and spectral masses\<close>

text \<open>
  \<^verbatim>\<open>spectral::point\<close> and \<^verbatim>\<open>spectral_mass\<close> are declared in headers that are
  not part of the sources at hand; their fields are the ones the code reads and
  writes. The complex amplitude \<^verbatim>\<open>value\<close> is called \<open>val\<close>. \<^verbatim>\<open>std::abs\<close>,
  \<^verbatim>\<open>std::arg\<close> and \<^verbatim>\<open>std::polar\<close> are \<^const>\<open>cmod\<close>, \<^const>\<open>Arg\<close> and
  \<^const>\<open>rcis\<close>.
\<close>

record point =
  val :: complex
  freq :: real
  time :: real
  freq_reassigned :: real
  time_reassigned :: real

text \<open>A value-initialised point, as in \<^verbatim>\<open>std::vector<point> output(n)\<close>.\<close>

definition point0 :: point where
  "point0 = \<lparr> val = 0, freq = 0, time = 0, freq_reassigned = 0, time_reassigned = 0 \<rparr>"

record spectral_mass =
  left_bin :: nat
  right_bin :: nat
  center_bin :: nat
  mass :: real

text \<open>The loops \<^verbatim>\<open>for (j = lo; j < hi; j++) sum += std::abs(spectrum[j].value)\<close>.\<close>

definition abs_sum :: "point list \<Rightarrow> nat \<Rightarrow> nat \<Rightarrow> real" where
  "abs_sum spectrum lo hi = fold (\<lambda>j s. s + cmod (val (spectrum ! j))) [lo..<hi] 0"

subsection \<open>\<^verbatim>\<open>audio_transport::transport_matrix\<close>\<close>

text \<open>
  The \<^verbatim>\<open>while (true)\<close> loop with its two \<^verbatim>\<open>break\<close>s; \<open>T\<close> is the vector of
  triples built by \<^verbatim>\<open>emplace_back\<close>.
\<close>

function transport_loop ::
  "spectral_mass list \<Rightarrow> spectral_mass list \<Rightarrow> nat \<Rightarrow> nat \<Rightarrow> real \<Rightarrow> real
     \<Rightarrow> (nat \<times> nat \<times> real) list \<Rightarrow> (nat \<times> nat \<times> real) list"
where
  "transport_loop left right left_index right_index left_mass right_mass T =
     (if left_mass < right_mass then
        (if left_index + 1 \<ge> length left
         then T @ [(left_index, right_index, left_mass)]
         else transport_loop left right (left_index + 1) right_index
                (mass (left ! (left_index + 1))) (right_mass - left_mass)
                (T @ [(left_index, right_index, left_mass)]))
      else
        (if right_index + 1 \<ge> length right
         then T @ [(left_index, right_index, right_mass)]
         else transport_loop left right left_index (right_index + 1)
                (left_mass - right_mass) (mass (right ! (right_index + 1)))
                (T @ [(left_index, right_index, right_mass)])))"
  by pat_completeness auto
termination
  by (relation "measure (\<lambda>(left, right, left_index, right_index, left_mass, right_mass, T).
        (length left - left_index) + (length right - right_index))") auto

declare transport_loop.simps [simp del]

definition transport_matrix ::
  "spectral_mass list \<Rightarrow> spectral_mass list \<Rightarrow> (nat \<times> nat \<times> real) list"
where
  "transport_matrix left right =
     transport_loop left right 0 0 (mass (left ! 0)) (mass (right ! 0)) []"

subsection \<open>\<^verbatim>\<open>audio_transport::group_spectrum\<close>\<close>

text \<open>
  The state of the scan: the vector \<^verbatim>\<open>masses\<close>, and the flags \<^verbatim>\<open>sign\<close> and
  \<^verbatim>\<open>first\<close>. The source leaves \<^verbatim>\<open>right_bin\<close> and \<^verbatim>\<open>mass\<close> of a new mass
  uninitialised and writes both before it returns; the model starts them at 0.
\<close>

record group_state =
  masses :: "spectral_mass list"
  sign :: bool
  first :: bool

text \<open>\<^verbatim>\<open>masses[masses.size() - 1]\<close> updated in place.\<close>

definition update_last :: "(spectral_mass \<Rightarrow> spectral_mass) \<Rightarrow> spectral_mass list \<Rightarrow> spectral_mass list" where
  "update_last f ms = ms[length ms - 1 := f (ms ! (length ms - 1))]"

definition group_step :: "point list \<Rightarrow> real \<Rightarrow> nat \<Rightarrow> group_state \<Rightarrow> group_state" where
  "group_step spectrum mass_sum i st =
     (let current_sign = (freq_reassigned (spectrum ! i) > freq (spectrum ! i)) in
      if first st then st\<lparr> first := False, sign := current_sign \<rparr>
      else if current_sign = sign st then st
      else if sign st then
        (let left_dist = freq_reassigned (spectrum ! (i - 1)) - freq (spectrum ! (i - 1));
             right_dist = freq (spectrum ! i) - freq_reassigned (spectrum ! i)
         in st\<lparr> masses := update_last
                  (\<lambda>m. m\<lparr> center_bin := (if left_dist < right_dist then i - 1 else i) \<rparr>)
                  (masses st),
               sign := current_sign \<rparr>)
      else
        (let m = abs_sum spectrum (left_bin (masses st ! (length (masses st) - 1))) i
         in if m > 0
            then st\<lparr> masses := update_last (\<lambda>m'. m'\<lparr> mass := m / mass_sum, right_bin := i \<rparr>)
                                  (masses st)
                                @ [\<lparr> left_bin = i, right_bin = 0, center_bin = i, mass = 0 \<rparr>],
                     sign := current_sign \<rparr>
            else st\<lparr> masses := update_last (\<lambda>m'. m'\<lparr> mass := m \<rparr>) (masses st),
                     sign := current_sign \<rparr>))"

definition group_spectrum :: "point list \<Rightarrow> spectral_mass list" where
  "group_spectrum spectrum =
     (let mass_sum = abs_sum spectrum 0 (length spectrum) in
      if mass_sum < MIN_MASS_THRESHOLD
      then [\<lparr> left_bin = 0, right_bin = length spectrum,
               center_bin = length spectrum div 2, mass = 1 \<rparr>]
      else
        (let st = fold (group_step spectrum mass_sum) [0..<length spectrum]
                    \<lparr> masses = [\<lparr> left_bin = 0, right_bin = 0, center_bin = 0, mass = 0 \<rparr>],
                      sign = False, first = True \<rparr>
         in update_last
              (\<lambda>m. m\<lparr> right_bin := length spectrum,
                       mass := abs_sum spectrum (left_bin m) (length spectrum) / mass_sum \<rparr>)
              (masses st)))"

subsection \<open>\<^verbatim>\<open>audio_transport::place_mass\<close>\<close>

text \<open>
  The vectors \<^verbatim>\<open>output\<close>, \<^verbatim>\<open>phases\<close> and \<^verbatim>\<open>amplitudes\<close> are passed by
  reference and updated in place; the model returns the three of them. The
  parameters \<^verbatim>\<open>mass\<close> and \<^verbatim>\<open>center_bin\<close> are called \<open>the_mass\<close> and
  \<open>new_center_bin\<close>, the names being taken by the fields.
\<close>

type_synonym placement = "point list \<times> real list \<times> real list"

text \<open>One iteration of the loop over the bins of the mass.\<close>

definition place_bin ::
  "spectral_mass \<Rightarrow> int \<Rightarrow> real \<Rightarrow> real \<Rightarrow> real \<Rightarrow> point list \<Rightarrow> real
     \<Rightarrow> nat \<Rightarrow> placement \<Rightarrow> placement"
where
  "place_bin the_mass new_center_bin scale interpolated_freq phase_shift input next_phase i =
     (\<lambda>(output, phases, amplitudes).
       let new_i = int i + new_center_bin - int (center_bin the_mass) in
       if new_i < 0 then (output, phases, amplitudes)
       else if new_i \<ge> int (length output) then (output, phases, amplitudes)
       else
         (let phase = phase_shift + Arg (val (input ! i));
              mag = scale * cmod (val (input ! i))
          in if \<not> isfinite mag then (output, phases, amplitudes)
             else if \<not> isfinite phase then (output, phases, amplitudes)
             else
               (let output1 = output[nat new_i :=
                      (output ! nat new_i)\<lparr> val := val (output ! nat new_i) + rcis mag phase \<rparr>]
                in if mag > amplitudes ! nat new_i
                   then (output1[nat new_i :=
                           (output1 ! nat new_i)\<lparr> freq_reassigned := interpolated_freq \<rparr>],
                         (if isfinite next_phase then phases[nat new_i := next_phase] else phases),
                         amplitudes[nat new_i := mag])
                   else (output1, phases, amplitudes))))"

definition LOW_FREQ_CUTOFF :: real where
  "LOW_FREQ_CUTOFF = 30"

definition place_mass ::
  "spectral_mass \<Rightarrow> int \<Rightarrow> real \<Rightarrow> real \<Rightarrow> real \<Rightarrow> point list \<Rightarrow> point list
     \<Rightarrow> real \<Rightarrow> real list \<Rightarrow> real list \<Rightarrow> placement"
where
  "place_mass the_mass new_center_bin scale interpolated_freq center_phase input output
       next_phase phases amplitudes =
     (if \<not> isfinite scale \<or> scale < 0 then (output, phases, amplitudes)
      else if \<not> isfinite interpolated_freq then (output, phases, amplitudes)
      else
        (let abs_freq = \<bar>interpolated_freq\<bar>;
             scale1 = (if abs_freq < LOW_FREQ_CUTOFF
                       then scale * ((abs_freq / LOW_FREQ_CUTOFF) * (abs_freq / LOW_FREQ_CUTOFF))
                       else scale);
             phase_shift = center_phase - Arg (val (input ! center_bin the_mass))
         in if \<not> isfinite phase_shift then (output, phases, amplitudes)
            else fold (place_bin the_mass new_center_bin scale1 interpolated_freq phase_shift
                         input next_phase)
                   [left_bin the_mass..<right_bin the_mass] (output, phases, amplitudes)))"

subsection \<open>\<^verbatim>\<open>audio_transport::interpolate\<close>\<close>

text \<open>
  The phase update of the two one-sided silent branches:
  \<^verbatim>\<open>for (i = 0; i < phases.size() && i < side.size(); i++)\<close>.
\<close>

definition silent_phase_step :: "point list \<Rightarrow> real \<Rightarrow> nat \<Rightarrow> real list \<Rightarrow> real list" where
  "silent_phase_step side window_size i phases =
     (let mag = cmod (val (side ! i)) in
      if mag > 0
      then phases[i := Arg (val (side ! i)) + freq_reassigned (side ! i) * window_size / 2]
      else phases)"

definition silent_phases :: "point list \<Rightarrow> real \<Rightarrow> real list \<Rightarrow> real list" where
  "silent_phases side window_size phases =
     fold (silent_phase_step side window_size) [0..<min (length phases) (length side)] phases"

text \<open>
  The state of the loop over the transport triples: the spectrum
  \<^verbatim>\<open>interpolated\<close>, the vector \<^verbatim>\<open>phases\<close> (an invalid entry is reset to 0),
  and \<^verbatim>\<open>new_phases\<close> and \<^verbatim>\<open>new_amplitudes\<close>.
\<close>

type_synonym interp_state = "point list \<times> real list \<times> real list \<times> real list"

definition transport_step ::
  "point list \<Rightarrow> point list \<Rightarrow> spectral_mass list \<Rightarrow> spectral_mass list \<Rightarrow> real \<Rightarrow> real
     \<Rightarrow> nat \<times> nat \<times> real \<Rightarrow> interp_state \<Rightarrow> interp_state"
where
  "transport_step left right left_masses right_masses window_size interpolation t =
     (\<lambda>(interpolated, phases, new_phases, new_amplitudes).
       let left_mass = left_masses ! fst t;
           right_mass = right_masses ! fst (snd t);
           interpolated_bin = c_round ((1 - interpolation) * real (center_bin left_mass)
                                        + interpolation * real (center_bin right_mass));
           interpolation_rounded =
             (if center_bin left_mass \<noteq> center_bin right_mass
              then (real_of_int interpolated_bin - real (center_bin left_mass))
                   / (real (center_bin right_mass) - real (center_bin left_mass))
              else interpolation);
           interpolated_freq =
             (1 - interpolation_rounded) * freq_reassigned (left ! center_bin left_mass)
             + interpolation_rounded * freq_reassigned (right ! center_bin right_mass);
           phases1 = (if \<not> isfinite (phases ! nat interpolated_bin)
                      then phases[nat interpolated_bin := 0] else phases);
           center_phase = phases1 ! nat interpolated_bin
                          + (interpolated_freq * window_size / 2) / 2
                          - pi * real_of_int interpolated_bin;
           new_phase = center_phase + (interpolated_freq * window_size / 2) / 2
                       + pi * real_of_int interpolated_bin;
           left_scale =
             (if mass left_mass > MIN_MASS_THRESHOLD
              then (1 - interpolation) * snd (snd t) / mass left_mass
              else if mass left_mass > 0 then 1 - interpolation else 0);
           right_scale =
             (if mass right_mass > MIN_MASS_THRESHOLD
              then interpolation * snd (snd t) / mass right_mass
              else if mass right_mass > 0 then interpolation else 0)
       in case place_mass left_mass interpolated_bin left_scale interpolated_freq center_phase
                 left interpolated new_phase new_phases new_amplitudes of
            (interpolated1, new_phases1, new_amplitudes1) \<Rightarrow>
          case place_mass right_mass interpolated_bin right_scale interpolated_freq center_phase
                 right interpolated1 new_phase new_phases1 new_amplitudes1 of
            (interpolated2, new_phases2, new_amplitudes2) \<Rightarrow>
          (interpolated2, phases1, new_phases2, new_amplitudes2))"

text \<open>
  \<^verbatim>\<open>interpolate\<close> returns the interpolated spectrum and updates \<^verbatim>\<open>phases\<close>,
  which is passed by reference; the model returns both.
\<close>

definition interpolate ::
  "point list \<Rightarrow> point list \<Rightarrow> real list \<Rightarrow> real \<Rightarrow> real \<Rightarrow> point list \<times> real list"
where
  "interpolate left right phases window_size interpolation =
     (let left_mass_sum = abs_sum left 0 (length left);
          right_mass_sum = abs_sum right 0 (length right);
          left_silent = (left_mass_sum < MIN_MASS_THRESHOLD);
          right_silent = (right_mass_sum < MIN_MASS_THRESHOLD)
      in if left_silent \<and> right_silent
         then (map (\<lambda>i. point0\<lparr> freq := freq (left ! i) \<rparr>) [0..<length left], phases)
         else if left_silent
         then (map (\<lambda>i. (right ! i)\<lparr> val := val (right ! i) * complex_of_real interpolation \<rparr>)
                 [0..<length right],
               silent_phases right window_size phases)
         else if right_silent
         then (map (\<lambda>i. (left ! i)\<lparr> val := val (left ! i) * complex_of_real (1 - interpolation) \<rparr>)
                 [0..<length left],
               silent_phases left window_size phases)
         else
           (let left_masses = group_spectrum left;
                right_masses = group_spectrum right;
                T = transport_matrix left_masses right_masses;
                interpolated = map (\<lambda>i. point0\<lparr> freq := freq (left ! i) \<rparr>) [0..<length left];
                new_amplitudes = replicate (length phases) 0;
                new_phases = replicate (length phases) 0
            in case fold (transport_step left right left_masses right_masses window_size
                            interpolation) T
                      (interpolated, phases, new_phases, new_amplitudes) of
                 (interpolated1, phases1, new_phases1, new_amplitudes1) \<Rightarrow>
                   (interpolated1, new_phases1)))"

section \<open>External libraries\<close>

text \<open>
  The FFTW plans and the window functions of \<^verbatim>\<open>spectral.hpp\<close> are not part of
  the sources at hand; the engines take them as parameters. \<open>r2c\<close> is an executed
  \<^verbatim>\<open>fftw_plan_dft_r2c_1d\<close> (\<open>n\<close> reals to \<open>n div 2 + 1\<close> bins), \<open>c2r n\<close> an
  executed \<^verbatim>\<open>fftw_plan_dft_c2r_1d\<close> of size \<open>n\<close>; \<open>hann\<close>, \<open>hann_t\<close> and
  \<open>hann_d\<close> are \<^verbatim>\<open>spectral::hann\<close>, \<^verbatim>\<open>spectral::hann_t\<close> and
  \<^verbatim>\<open>spectral::hann_d\<close>.
\<close>

record external =
  r2c :: "real list \<Rightarrow> complex list"
  c2r :: "nat \<Rightarrow> complex list \<Rightarrow> real list"
  hann :: "real \<Rightarrow> int \<Rightarrow> real"
  hann_t :: "real \<Rightarrow> int \<Rightarrow> real \<Rightarrow> real"
  hann_d :: "real \<Rightarrow> int \<Rightarrow> real \<Rightarrow> real"

text \<open>
  What FFTW computes, in exact arithmetic: the unnormalised discrete Fourier
  transform of a real sequence, of which the first \<open>n div 2 + 1\<close> bins are kept,
  and the unnormalised inverse transform of the Hermitian sequence that these
  bins stand for.
\<close>

definition dft_r2c :: "real list \<Rightarrow> complex list" where
  "dft_r2c xs =
     map (\<lambda>k. \<Sum>j<length xs. complex_of_real (xs ! j)
                  * cis (- 2 * pi * real j * real k / real (length xs)))
       [0..<length xs div 2 + 1]"

definition dft_c2r :: "nat \<Rightarrow> complex list \<Rightarrow> real list" where
  "dft_c2r n ys =
     map (\<lambda>j. \<Sum>k<n. Re ((if k \<le> n div 2 then ys ! k else cnj (ys ! (n - k)))
                         * cis (2 * pi * real j * real k / real n)))
       [0..<n]"

text \<open>
  Modelled from the spec: the window functions of \<^verbatim>\<open>spectral.hpp\<close>, which is
  not among the sources. Section 4.A gives the plain Hann window, the
  time-weighted window and the derivative window scaled to Hz; the argument
  \<open>n\<close> is the sample index relative to the centre of the window, as
  \<^verbatim>\<open>analyzeWindow\<close> passes it.
\<close>

definition spec_hann :: "real \<Rightarrow> int \<Rightarrow> real" where
  "spec_hann n N = 0.5 * (1 + cos (2 * pi * n / real_of_int (N - 1)))"

definition spec_hann_t :: "real \<Rightarrow> int \<Rightarrow> real \<Rightarrow> real" where
  "spec_hann_t n N sr = n / sr * spec_hann n N"

definition spec_hann_d :: "real \<Rightarrow> int \<Rightarrow> real \<Rightarrow> real" where
  "spec_hann_d n N sr = - (pi / real_of_int (N - 1)) * sin (2 * pi * n / real_of_int (N - 1)) * sr"

definition dft_external :: external where
  "dft_external = \<lparr> r2c = dft_r2c, c2r = dft_c2r,
                     hann = spec_hann, hann_t = spec_hann_t, hann_d = spec_hann_d \<rparr>"

section \<open>The CDF engine: \<^verbatim>\<open>RealtimeAudioTransport\<close>\<close>

text \<open>
  The members of the class, without the FFTW handles and the scratch spectra
  (\<^verbatim>\<open>spectrum_main_\<close>, \<^verbatim>\<open>spectrum_sidechain_\<close>, \<^verbatim>\<open>spectrum_output_\<close>), which are
  written at every hop before they are read and are locals of the model.
\<close>

record cdf_engine =
  sample_rate :: real
  window_size :: int
  hop_size :: int
  fft_size :: int
  num_bins :: int
  main_buffer :: "real list"
  sidechain_buffer :: "real list"
  output_buffer :: "real list"
  buffer_write_pos :: int
  buffer_read_pos :: int
  samples_in_buffer :: int
  window :: "real list"
  phases :: "real list"
  ola_buffer :: "real list"
  ola_write_pos :: int

text \<open>The constructor.\<close>

definition cdf_new :: "real \<Rightarrow> real \<Rightarrow> int \<Rightarrow> int \<Rightarrow> cdf_engine" where
  "cdf_new sample_rate' window_ms hop_divisor fft_mult =
     (let window_size' = static_cast_int (window_ms * sample_rate' / 1000);
          hop_size' = c_div window_size' hop_divisor;
          next_pow2 = static_cast_int (2 powr real_of_int \<lceil>log 2 (real_of_int window_size')\<rceil>);
          fft_size' = next_pow2 * fft_mult;
          num_bins' = c_div fft_size' 2 + 1
      in \<lparr> sample_rate = sample_rate',
           window_size = window_size',
           hop_size = hop_size',
           fft_size = fft_size',
           num_bins = num_bins',
           main_buffer = replicate (nat window_size') 0,
           sidechain_buffer = replicate (nat window_size') 0,
           output_buffer = replicate (nat window_size') 0,
           buffer_write_pos = 0,
           buffer_read_pos = 0,
           samples_in_buffer = 0,
           window = map (\<lambda>i. 0.5 * (1 - cos (2 * pi * real i / real_of_int (window_size' - 1))))
                      [0..<nat window_size'],
           phases = replicate (nat num_bins') 0,
           ola_buffer = replicate (nat (window_size' * 2)) 0,
           ola_write_pos = 0 \<rparr>)"

definition cdf_reset :: "cdf_engine \<Rightarrow> cdf_engine" where
  "cdf_reset st =
     st\<lparr> main_buffer := replicate (length (main_buffer st)) 0,
         sidechain_buffer := replicate (length (sidechain_buffer st)) 0,
         output_buffer := replicate (length (output_buffer st)) 0,
         ola_buffer := replicate (length (ola_buffer st)) 0,
         phases := replicate (length (phases st)) 0,
         buffer_write_pos := 0,
         buffer_read_pos := 0,
         samples_in_buffer := 0,
         ola_write_pos := 0 \<rparr>"

definition cdf_getLatencySamples :: "cdf_engine \<Rightarrow> int" where
  "cdf_getLatencySamples st = c_div (window_size st) 2"

definition computeSTFT :: "external \<Rightarrow> cdf_engine \<Rightarrow> real list \<Rightarrow> complex list" where
  "computeSTFT E st input_buffer =
     (let padding_offset = c_div (fft_size st - window_size st) 2;
          fft_input = fold (\<lambda>i buf. buf[nat (padding_offset + int i) := input_buffer ! i * window st ! i])
                        [0..<nat (window_size st)] (replicate (nat (fft_size st)) 0);
          fft_output = r2c E fft_input
      in map (\<lambda>i. fft_output ! i) [0..<nat (num_bins st)])"

definition computeISTFT :: "external \<Rightarrow> cdf_engine \<Rightarrow> complex list \<Rightarrow> real list" where
  "computeISTFT E st spectrum =
     (let ifft_input = map (\<lambda>i. spectrum ! i) [0..<nat (num_bins st)];
          ifft_output = c2r E (nat (fft_size st)) ifft_input;
          padding_offset = c_div (fft_size st - window_size st) 2;
          nrm = 1 / real_of_int (fft_size st)
      in map (\<lambda>i. ifft_output ! nat (padding_offset + int i) * window st ! i * nrm)
           [0..<nat (window_size st)])"

text \<open>
  The body of a hop between the extraction of the two frames and the
  overlap-add: analysis, interpolation, synthesis. It yields \<^verbatim>\<open>output_frame\<close>.
\<close>

definition cdf_hop_chain :: "external \<Rightarrow> cdf_engine \<Rightarrow> real list \<Rightarrow> real list \<Rightarrow> real \<Rightarrow> real list" where
  "cdf_hop_chain E st main_frame sidechain_frame k_value =
     (let spectrum_main = computeSTFT E st main_frame;
          spectrum_sidechain = computeSTFT E st sidechain_frame;
          mag_X = map (\<lambda>j. cmod (spectrum_main ! j)) [0..<nat (num_bins st)];
          mag_Y = map (\<lambda>j. cmod (spectrum_sidechain ! j)) [0..<nat (num_bins st)];
          phase_X = map (\<lambda>j. Arg (spectrum_main ! j)) [0..<nat (num_bins st)];
          phase_Y = map (\<lambda>j. Arg (spectrum_sidechain ! j)) [0..<nat (num_bins st)]
      in case interpolateSpectrum (num_bins st) mag_X phase_X mag_Y phase_Y k_value of
           (mag_out, phase_out) \<Rightarrow>
             computeISTFT E st
               (map (\<lambda>j. rcis (mag_out ! j) (phase_out ! j)) [0..<nat (num_bins st)]))"

text \<open>
  The dispatcher. One hop: the two frames are read from the circular input
  buffers, the chain \<open>chain\<close> turns them into \<^verbatim>\<open>output_frame\<close>, which is added
  into the overlap-add buffer.
\<close>

definition cdf_hop :: "(real list \<Rightarrow> real list \<Rightarrow> real \<Rightarrow> real list) \<Rightarrow> real \<Rightarrow> cdf_engine \<Rightarrow> cdf_engine" where
  "cdf_hop chain k_value st =
     (let main_frame = map (\<lambda>j. main_buffer st
                            ! nat (c_rem (buffer_read_pos st + int j) (window_size st)))
                         [0..<nat (window_size st)];
          sidechain_frame = map (\<lambda>j. sidechain_buffer st
                            ! nat (c_rem (buffer_read_pos st + int j) (window_size st)))
                         [0..<nat (window_size st)];
          output_frame = chain main_frame sidechain_frame k_value
      in st\<lparr> buffer_read_pos := c_rem (buffer_read_pos st + hop_size st) (window_size st),
             ola_buffer :=
               fold (\<lambda>j ola. ola[nat (ola_write_pos st + int j) mod length ola :=
                        ola ! (nat (ola_write_pos st + int j) mod length ola) + output_frame ! j])
                 [0..<nat (window_size st)] (ola_buffer st) \<rparr>)"

text \<open>One iteration of the sample loop of \<^verbatim>\<open>process\<close>: the new state and \<^verbatim>\<open>output[i]\<close>.\<close>

definition cdf_sample ::
  "(real list \<Rightarrow> real list \<Rightarrow> real \<Rightarrow> real list) \<Rightarrow> real \<Rightarrow> cdf_engine \<Rightarrow> real \<times> real
     \<Rightarrow> cdf_engine \<times> real"
where
  "cdf_sample chain k_value st x =
     (let st1 = st\<lparr> main_buffer := (main_buffer st)[nat (buffer_write_pos st) := fst x],
                    sidechain_buffer := (sidechain_buffer st)[nat (buffer_write_pos st) := snd x],
                    buffer_write_pos := c_rem (buffer_write_pos st + 1) (window_size st),
                    samples_in_buffer := samples_in_buffer st + 1 \<rparr>;
          st2 = (if samples_in_buffer st1 \<ge> hop_size st1
                 then cdf_hop chain k_value
                        (st1\<lparr> samples_in_buffer := samples_in_buffer st1 - hop_size st1 \<rparr>)
                 else st1)
      in (st2\<lparr> ola_buffer := (ola_buffer st2)[nat (ola_write_pos st2) := 0],
               ola_write_pos := int (nat (ola_write_pos st2 + 1) mod length (ola_buffer st2)) \<rparr>,
          ola_buffer st2 ! nat (ola_write_pos st2)))"

text \<open>
  \<^verbatim>\<open>process(input_main, input_sidechain, output, buffer_size, k_value)\<close>: the two
  input arrays of \<^verbatim>\<open>buffer_size\<close> samples are one list of pairs, the output
  array is returned with the new state.
\<close>

fun cdf_process_with ::
  "(real list \<Rightarrow> real list \<Rightarrow> real \<Rightarrow> real list) \<Rightarrow> cdf_engine \<Rightarrow> (real \<times> real) list \<Rightarrow> real
     \<Rightarrow> cdf_engine \<times> real list"
where
  "cdf_process_with chain st [] k_value = (st, [])"
| "cdf_process_with chain st (x # xs) k_value =
     (case cdf_sample chain k_value st x of
        (st1, y) \<Rightarrow>
          (case cdf_process_with chain st1 xs k_value of
             (st2, ys) \<Rightarrow> (st2, y # ys)))"

definition cdf_process ::
  "external \<Rightarrow> cdf_engine \<Rightarrow> (real \<times> real) list \<Rightarrow> real \<Rightarrow> cdf_engine \<times> real list"
where
  "cdf_process E st samples k_value = cdf_process_with (cdf_hop_chain E st) st samples k_value"

section \<open>The reassignment engine: \<^verbatim>\<open>RealtimeReassignmentTransport\<close>\<close>

text \<open>
  The members of the class, without the FFTW handles and their in-place
  buffers (\<^verbatim>\<open>window_\<close>, \<^verbatim>\<open>window_t_\<close>, \<^verbatim>\<open>window_d_\<close>), which are cleared at
  every analysis and are locals of the model. Fields that share their name with
  a member of the CDF engine carry the suffix \<open>_r\<close>.
\<close>

record reassign_engine =
  sample_rate_r :: real
  window_size_r :: real
  window_samples :: int
  window_padded :: int
  hop_size_r :: int
  hop_divisor_r :: int
  fft_padding :: int
  fft_size_r :: int
  main_buffer_r :: "real list"
  sidechain_buffer_r :: "real list"
  input_write_pos :: int
  output_buffer_r :: "real list"
  output_read_pos :: int
  phases_r :: "real list"
  overlap_buffer :: "real list"

text \<open>
  The loop of the constructor,
  \<^verbatim>\<open>while (window_samples_ % (2 * hop_divisor_) != 0) window_samples_++\<close>, with
  \<open>d\<close> for \<^verbatim>\<open>2 * hop_divisor_\<close>. A remainder by zero is undefined in C++; the
  model leaves the loop at once.
\<close>

function align_window :: "int \<Rightarrow> int \<Rightarrow> int" where
  "align_window ws d =
     (if d \<noteq> 0 \<and> c_rem ws d \<noteq> 0 then align_window (ws + 1) d else ws)"
  by pat_completeness auto
termination
proof (relation "measure (\<lambda>(ws, d). nat ((- ws) mod \<bar>d\<bar>))")
  show "wf (measure (\<lambda>(ws, d). nat ((- ws) mod \<bar>d\<bar>)))"
    by simp
next
  fix ws d :: int
  assume a: "d \<noteq> 0 \<and> c_rem ws d \<noteq> 0"
  then have d: "0 < \<bar>d\<bar>" by simp
  have "c_rem ws d = sgn ws * (\<bar>ws\<bar> mod \<bar>d\<bar>)"
  proof -
    have "d * sgn d = \<bar>d\<bar>" by (simp add: abs_sgn mult.commute)
    then have "d * (sgn ws * sgn d * (\<bar>ws\<bar> div \<bar>d\<bar>)) = sgn ws * (\<bar>d\<bar> * (\<bar>ws\<bar> div \<bar>d\<bar>))"
      by (metis mult.assoc mult.left_commute)
    moreover have "ws = sgn ws * \<bar>ws\<bar>" by (simp add: sgn_mult_abs)
    ultimately have "c_rem ws d = sgn ws * (\<bar>ws\<bar> - \<bar>d\<bar> * (\<bar>ws\<bar> div \<bar>d\<bar>))"
      by (simp add: c_rem_def c_div_def right_diff_distrib)
    then show ?thesis by (simp add: minus_mult_div_eq_mod)
  qed
  with a have "\<bar>ws\<bar> mod \<bar>d\<bar> \<noteq> 0" by auto
  then have "\<not> \<bar>d\<bar> dvd \<bar>ws\<bar>" by (simp add: dvd_eq_mod_eq_0)
  then have nd: "\<not> \<bar>d\<bar> dvd (- ws)" by simp
  then have pos: "0 < (- ws) mod \<bar>d\<bar>"
    using d by (metis dvd_eq_mod_eq_0 less_le pos_mod_sign)
  have "(- (ws + 1)) mod \<bar>d\<bar> = ((- ws) mod \<bar>d\<bar> - 1) mod \<bar>d\<bar>"
    by (simp add: mod_diff_left_eq)
  also have "\<dots> = (- ws) mod \<bar>d\<bar> - 1"
  proof (rule mod_pos_pos_trivial)
    show "0 \<le> (- ws) mod \<bar>d\<bar> - 1" using pos by simp
    have "(- ws) mod \<bar>d\<bar> < \<bar>d\<bar>" using d by (rule pos_mod_bound)
    then show "(- ws) mod \<bar>d\<bar> - 1 < \<bar>d\<bar>" by simp
  qed
  finally have "(- (ws + 1)) mod \<bar>d\<bar> = (- ws) mod \<bar>d\<bar> - 1" .
  with pos show "((ws + 1, d), (ws, d)) \<in> measure (\<lambda>(ws, d). nat ((- ws) mod \<bar>d\<bar>))"
    by simp
qed

declare align_window.simps [simp del]

text \<open>The constructor.\<close>

definition reassign_new :: "real \<Rightarrow> real \<Rightarrow> int \<Rightarrow> int \<Rightarrow> reassign_engine" where
  "reassign_new sample_rate' window_ms hop_divisor' fft_padding' =
     (let window_size' = window_ms / 1000;
          window_samples' = align_window (c_round (window_size' * sample_rate')) (2 * hop_divisor');
          window_padded' = window_samples' * (1 + fft_padding');
          hop_size' = c_div window_samples' (2 * hop_divisor');
          fft_size' = c_div window_padded' 2 + 1;
          latency_hops = 2 * hop_divisor' - 1;
          latency_samples = latency_hops * hop_size';
          input_buffer_size = window_samples' + hop_size'
      in \<lparr> sample_rate_r = sample_rate',
           window_size_r = window_size',
           window_samples = window_samples',
           window_padded = window_padded',
           hop_size_r = hop_size',
           hop_divisor_r = hop_divisor',
           fft_padding = fft_padding',
           fft_size_r = fft_size',
           main_buffer_r = replicate (nat input_buffer_size) 0,
           sidechain_buffer_r = replicate (nat input_buffer_size) 0,
           input_write_pos = 0,
           output_buffer_r = replicate (nat (latency_samples + hop_size' * 4)) 0,
           output_read_pos = 0,
           phases_r = replicate (nat fft_size') 0,
           overlap_buffer = replicate (nat (window_samples' + hop_size')) 0 \<rparr>)"

definition reassign_reset :: "reassign_engine \<Rightarrow> reassign_engine" where
  "reassign_reset st =
     st\<lparr> main_buffer_r := replicate (length (main_buffer_r st)) 0,
         sidechain_buffer_r := replicate (length (sidechain_buffer_r st)) 0,
         output_buffer_r := replicate (length (output_buffer_r st)) 0,
         phases_r := replicate (length (phases_r st)) 0,
         overlap_buffer := replicate (length (overlap_buffer st)) 0,
         input_write_pos := 0,
         output_read_pos := 0 \<rparr>"

definition reassign_getLatencySamples :: "reassign_engine \<Rightarrow> int" where
  "reassign_getLatencySamples st = (2 * hop_divisor_r st - 1) * hop_size_r st"

text \<open>The windowing loop of \<^verbatim>\<open>analyzeWindow\<close>, for one of the three windows \<open>w\<close>.\<close>

definition apply_window :: "reassign_engine \<Rightarrow> (real \<Rightarrow> real) \<Rightarrow> real list \<Rightarrow> real list" where
  "apply_window st w input =
     (let padding_samples = c_div (window_padded st - window_samples st) 2
      in fold (\<lambda>i buf. buf[nat (int i + padding_samples) :=
                   input ! i * w (real i - (real_of_int (window_samples st) - 1) / 2)])
           [0..<nat (window_samples st)] (replicate (nat (window_padded st)) 0))"

definition analyzeWindow :: "external \<Rightarrow> reassign_engine \<Rightarrow> real list \<Rightarrow> point list" where
  "analyzeWindow E st input =
     (let fft = r2c E (apply_window st (\<lambda>n. hann E n (window_samples st)) input);
          fft_t = r2c E (apply_window st (\<lambda>n. hann_t E n (window_samples st) (sample_rate_r st)) input);
          fft_d = r2c E (apply_window st (\<lambda>n. hann_d E n (window_samples st) (sample_rate_r st)) input);
          center_time = 0
      in map (\<lambda>i.
           let X = fft ! i;
               X_t = fft_t ! i;
               X_d = fft_d ! i;
               f = (2 * pi * real i) / real_of_int (window_padded st) * sample_rate_r st;
               mag = cmod X
           in \<lparr> val = X,
                freq = f,
                time = center_time,
                freq_reassigned = (if mag > 1 / 10 ^ 10 then f + (- Im (X_d / X) / (2 * pi)) else f),
                time_reassigned = (if mag > 1 / 10 ^ 10 then center_time + Re (X_t / X)
                                   else center_time) \<rparr>)
           [0..<nat (fft_size_r st)])"

text \<open>
  \<^verbatim>\<open>synthesizeWindow\<close> adds the synthesised window into \<^verbatim>\<open>overlap_buffer_\<close>,
  copies one hop out and shifts the buffer. It returns the hop and the buffer.
\<close>

definition synthesizeWindow ::
  "external \<Rightarrow> reassign_engine \<Rightarrow> point list \<Rightarrow> real list \<Rightarrow> real list \<times> real list"
where
  "synthesizeWindow E st spectrum overlap =
     (let ifft = map (\<lambda>i. val (spectrum ! i)) [0..<length spectrum];
          synth = c2r E (nat (window_padded st)) ifft;
          padding_samples = c_div (window_padded st - window_samples st) 2;
          overlap1 = fold (\<lambda>i ov.
                       let v = synth ! nat (int i + padding_samples)
                               / real_of_int (hop_divisor_r st * window_padded st);
                           v1 = (if \<not> isfinite v then 0 else v)
                       in ov[i := ov ! i + v1])
                     [0..<nat (window_samples st)] overlap;
          hop_output = map (\<lambda>i. overlap1 ! i) [0..<nat (hop_size_r st)]
      in (hop_output,
          drop (nat (hop_size_r st)) overlap1 @ replicate (nat (hop_size_r st)) 0))"

text \<open>
  The first three steps of \<^verbatim>\<open>processHop\<close>: analysis of the two input buffers,
  interpolation, synthesis. The result is \<^verbatim>\<open>hop_output\<close> with the new
  \<^verbatim>\<open>phases_\<close> and \<^verbatim>\<open>overlap_buffer_\<close>.
\<close>

type_synonym hop_kernel =
  "real list \<Rightarrow> real list \<Rightarrow> real list \<Rightarrow> real list \<Rightarrow> real \<Rightarrow> real list \<times> real list \<times> real list"

definition reassign_hop_chain :: "external \<Rightarrow> reassign_engine \<Rightarrow> hop_kernel" where
  "reassign_hop_chain E st main_buf sidechain_buf phases_in overlap k =
     (let main_spectrum = analyzeWindow E st main_buf;
          sidechain_spectrum = analyzeWindow E st sidechain_buf
      in case interpolate main_spectrum sidechain_spectrum phases_in (window_size_r st) k of
           (morphed_spectrum, phases_out) \<Rightarrow>
             (case synthesizeWindow E st morphed_spectrum overlap of
                (hop_output, overlap_out) \<Rightarrow> (hop_output, phases_out, overlap_out)))"

text \<open>\<^verbatim>\<open>processHop\<close>: the chain, then the hop is written into the output buffer.\<close>

definition processHop :: "hop_kernel \<Rightarrow> real \<Rightarrow> reassign_engine \<Rightarrow> reassign_engine" where
  "processHop chain k st =
     (case chain (main_buffer_r st) (sidechain_buffer_r st) (phases_r st) (overlap_buffer st) k of
        (hop_output, phases_out, overlap_out) \<Rightarrow>
          st\<lparr> phases_r := phases_out,
              overlap_buffer := overlap_out,
              output_buffer_r :=
                fold (\<lambda>i ob. ob[nat (output_read_pos st + reassign_getLatencySamples st + int i)
                                  mod length ob := hop_output ! i])
                  [0..<nat (hop_size_r st)] (output_buffer_r st) \<rparr>)"

text \<open>\<^verbatim>\<open>memcpy\<close> of a block into a buffer at an offset.\<close>

fun write_at :: "real list \<Rightarrow> nat \<Rightarrow> real list \<Rightarrow> real list" where
  "write_at dst off [] = dst"
| "write_at dst off (x # xs) = write_at (dst[off := x]) (Suc off) xs"

text \<open>\<^verbatim>\<open>memmove\<close> of the buffer to the left by one hop, then \<^verbatim>\<open>std::fill\<close> of the tail.\<close>

definition shift_left :: "real list \<Rightarrow> nat \<Rightarrow> real list" where
  "shift_left buf h = drop h buf @ replicate h 0"

text \<open>
  One iteration of the \<^verbatim>\<open>while (samples_processed < buffer_size)\<close> loop of
  \<^verbatim>\<open>process\<close>, on the samples not yet processed: \<^verbatim>\<open>samples_to_copy\<close>
  samples are copied into the input buffers and, when the hop is full, the hop
  is processed and the input buffers are shifted.
\<close>

definition samples_to_copy :: "reassign_engine \<Rightarrow> (real \<times> real) list \<Rightarrow> int" where
  "samples_to_copy st samples =
     (let samples_until_hop = hop_size_r st - input_write_pos st
      in min samples_until_hop (int (length samples)))"

text \<open>The two \<^verbatim>\<open>memcpy\<close> calls and the advance of \<^verbatim>\<open>input_write_pos_\<close>.\<close>

definition copy_samples :: "reassign_engine \<Rightarrow> (real \<times> real) list \<Rightarrow> reassign_engine" where
  "copy_samples st samples =
     (let off = nat (window_samples st - hop_size_r st + input_write_pos st);
          n = nat (samples_to_copy st samples)
      in st\<lparr> main_buffer_r := write_at (main_buffer_r st) off (map fst (take n samples)),
             sidechain_buffer_r :=
               write_at (sidechain_buffer_r st) off (map snd (take n samples)),
             input_write_pos := input_write_pos st + samples_to_copy st samples \<rparr>)"

text \<open>The shift of the two input buffers after a hop.\<close>

definition shift_inputs :: "reassign_engine \<Rightarrow> reassign_engine" where
  "shift_inputs st =
     st\<lparr> main_buffer_r := shift_left (main_buffer_r st) (nat (hop_size_r st)),
         sidechain_buffer_r := shift_left (sidechain_buffer_r st) (nat (hop_size_r st)),
         input_write_pos := 0 \<rparr>"

definition reassign_block ::
  "hop_kernel \<Rightarrow> real \<Rightarrow> reassign_engine \<Rightarrow> (real \<times> real) list \<Rightarrow> reassign_engine"
where
  "reassign_block chain k st samples =
     (let st1 = copy_samples st samples
      in if input_write_pos st1 \<ge> hop_size_r st1
         then shift_inputs (processHop chain k st1)
         else st1)"

text \<open>
  The loop. The result is \<open>None\<close> where the source does not return: a negative
  \<^verbatim>\<open>samples_to_copy\<close> is a \<^verbatim>\<open>memcpy\<close> of a negative size, and with
  \<^verbatim>\<open>hop_size_\<close> not positive the loop makes no progress.
\<close>

function reassign_loop ::
  "hop_kernel \<Rightarrow> real \<Rightarrow> reassign_engine \<Rightarrow> (real \<times> real) list \<Rightarrow> reassign_engine option"
where
  "reassign_loop chain k st samples =
     (if samples = [] then Some st
      else if samples_to_copy st samples < 0
              \<or> (samples_to_copy st samples = 0 \<and> hop_size_r st \<le> 0) then None
      else reassign_loop chain k (reassign_block chain k st samples)
             (drop (nat (samples_to_copy st samples)) samples))"
  by pat_completeness auto
termination
proof (relation "measure (\<lambda>(chain, k, st, samples).
         2 * length samples + (if input_write_pos st \<ge> hop_size_r st then 1 else 0))")
  show "wf (measure (\<lambda>(chain, k, st, samples).
         2 * length samples + (if input_write_pos st \<ge> hop_size_r st then 1 else 0)))"
    by simp
next
  fix chain :: hop_kernel and k :: real and st :: reassign_engine
    and samples :: "(real \<times> real) list"
  assume ne: "samples \<noteq> []"
    and guard: "\<not> (samples_to_copy st samples < 0
                   \<or> samples_to_copy st samples = 0 \<and> hop_size_r st \<le> 0)"
  have hop: "\<And>s. hop_size_r (processHop chain k s) = hop_size_r s"
    by (simp add: processHop_def case_prod_unfold)
  have len: "0 < length samples" using ne by simp
  show "((chain, k, reassign_block chain k st samples,
          drop (nat (samples_to_copy st samples)) samples), (chain, k, st, samples))
      \<in> measure (\<lambda>(chain, k, st, samples).
         2 * length samples + (if input_write_pos st \<ge> hop_size_r st then 1 else 0))"
  proof (cases "samples_to_copy st samples = 0")
    case True
    with guard have hpos: "0 < hop_size_r st" by simp
    from True len have wp: "input_write_pos st = hop_size_r st"
      by (simp add: samples_to_copy_def Let_def min_def split: if_splits)
    have "input_write_pos (reassign_block chain k st samples) = 0"
      "hop_size_r (reassign_block chain k st samples) = hop_size_r st"
      using True wp hop
      by (simp_all add: reassign_block_def copy_samples_def shift_inputs_def Let_def)
    then show ?thesis using True wp hpos by simp
  next
    case False
    with guard have "0 < samples_to_copy st samples" by simp
    then have "length (drop (nat (samples_to_copy st samples)) samples) < length samples"
      using len by simp
    then show ?thesis by (simp split: if_splits)
  qed
qed

declare reassign_loop.simps [simp del]

text \<open>The last loop of \<^verbatim>\<open>process\<close>: \<open>n\<close> samples are read from the output buffer.\<close>

fun read_output :: "reassign_engine \<Rightarrow> nat \<Rightarrow> reassign_engine \<times> real list" where
  "read_output st 0 = (st, [])"
| "read_output st (Suc n) =
     (case read_output
             (st\<lparr> output_buffer_r := (output_buffer_r st)[nat (output_read_pos st) := 0],
                  output_read_pos :=
                    int (nat (output_read_pos st + 1) mod length (output_buffer_r st)) \<rparr>) n of
        (st1, ys) \<Rightarrow> (st1, output_buffer_r st ! nat (output_read_pos st) # ys))"

text \<open>
  \<^verbatim>\<open>process(input_main, input_sidechain, output, buffer_size, k)\<close>; the two input
  arrays are one list of pairs, the output array is returned with the new state.
\<close>

definition reassign_process_with ::
  "hop_kernel \<Rightarrow> reassign_engine \<Rightarrow> (real \<times> real) list \<Rightarrow> real
     \<Rightarrow> (reassign_engine \<times> real list) option"
where
  "reassign_process_with chain st samples k =
     (case reassign_loop chain k st samples of
        None \<Rightarrow> None
      | Some st1 \<Rightarrow> Some (read_output st1 (length samples)))"

definition reassign_process ::
  "external \<Rightarrow> reassign_engine \<Rightarrow> (real \<times> real) list \<Rightarrow> real
     \<Rightarrow> (reassign_engine \<times> real list) option"
where
  "reassign_process E st samples k = reassign_process_with (reassign_hop_chain E st) st samples k"

section \<open>Two consecutive calls and the configuration of an engine\<close>

text \<open>
  Two consecutive \<^verbatim>\<open>process()\<close> calls with the same \<open>k\<close>: the second one
  starts in the state the first one leaves, the outputs are concatenated.
\<close>

definition cdf_two_calls ::
  "external \<Rightarrow> cdf_engine \<Rightarrow> (real \<times> real) list \<Rightarrow> (real \<times> real) list \<Rightarrow> real
     \<Rightarrow> cdf_engine \<times> real list"
where
  "cdf_two_calls E st xs ys k =
     (case cdf_process E st xs k of
        (st1, out1) \<Rightarrow>
          (case cdf_process E st1 ys k of
             (st2, out2) \<Rightarrow> (st2, out1 @ out2)))"

definition reassign_two_calls ::
  "external \<Rightarrow> reassign_engine \<Rightarrow> (real \<times> real) list \<Rightarrow> (real \<times> real) list \<Rightarrow> real
     \<Rightarrow> (reassign_engine \<times> real list) option"
where
  "reassign_two_calls E st xs ys k =
     (case reassign_process E st xs k of
        None \<Rightarrow> None
      | Some (st1, out1) \<Rightarrow>
          (case reassign_process E st1 ys k of
             None \<Rightarrow> None
           | Some (st2, out2) \<Rightarrow> Some (st2, out1 @ out2)))"

text \<open>The members that \<^verbatim>\<open>process\<close> has no assignment to.\<close>

definition cdf_config ::
  "cdf_engine \<Rightarrow> real \<times> int \<times> int \<times> int \<times> int \<times> real list \<times> real list \<times> real list"
where
  "cdf_config st = (sample_rate st, window_size st, hop_size st, fft_size st, num_bins st,
                    window st, phases st, output_buffer st)"

definition reassign_config ::
  "reassign_engine \<Rightarrow> real \<times> real \<times> int \<times> int \<times> int \<times> int \<times> int \<times> int"
where
  "reassign_config st = (sample_rate_r st, window_size_r st, window_samples st, window_padded st,
                         hop_size_r st, hop_divisor_r st, fft_padding st, fft_size_r st)"

section \<open>Notions of the specification\<close>

text \<open>
  The cumulative distribution as the specification words it: the total mass
  \<open>S = \<Sum> |X[i]|\<close> clamped to at least \<open>\<epsilon>\<close>, and
  \<open>F[i] = (\<Sum>\<^bsub>j\<le>i\<^esub> |X[j]|) / S\<close>.
\<close>

definition cdf_spec :: "int \<Rightarrow> real list \<Rightarrow> nat \<Rightarrow> real" where
  "cdf_spec N mag i = (\<Sum>j\<le>i. mag ! j) / max (\<Sum>j<nat N. mag ! j) eps"


text \<open>
  The silence short-circuit as the specification words it (section 4.D): with
  both magnitude sums below \<open>\<epsilon>\<close> a zero spectrum, with one of them below
  \<open>\<epsilon>\<close> the other spectrum scaled by \<open>k\<close> or \<open>1 - k\<close>; \<open>None\<close> where the
  specification does not short-circuit.
\<close>

definition spec_silence_short_circuit :: "int \<Rightarrow> real list \<Rightarrow> real list \<Rightarrow> real \<Rightarrow> real list option" where
  "spec_silence_short_circuit N mag_X mag_Y k =
     (if spectrum_sum N mag_X < eps \<and> spectrum_sum N mag_Y < eps then Some (replicate (nat N) 0)
      else if spectrum_sum N mag_X < eps then Some (map (\<lambda>y. k * y) mag_Y)
      else if spectrum_sum N mag_Y < eps then Some (map (\<lambda>x. (1 - k) * x) mag_X)
      else None)"

text \<open>
  The phase advance as the specification words it (section 4.D): per bin,
  \<open>freq \<cdot> window_size / 2\<close>, with the nominal (bin-centre) frequency of the bin
  in Hz and the window size in seconds.
\<close>

definition spec_phase_advance :: "cdf_engine \<Rightarrow> nat \<Rightarrow> real" where
  "spec_phase_advance st i =
     (real i * sample_rate st / real_of_int (fft_size st))
     * (real_of_int (window_size st) / sample_rate st) / 2"


section \<open>A small reassignment engine\<close>

text \<open>
  The states of the engine constructed with sample rate 2, a window of 1000 ms,
  hop divisor 1 and padding 1 (window of 2 samples, hop of 1 sample, latency of
  1 sample, output buffer of 5 samples) between two iterations of the loop of
  \<^verbatim>\<open>process\<close>, as a function of the buffers and of the read cursor.
\<close>

definition tiny ::
  "real list \<Rightarrow> real list \<Rightarrow> real list \<Rightarrow> real list \<Rightarrow> real list \<Rightarrow> int \<Rightarrow> reassign_engine"
where
  "tiny mb sb ph ov ob rp =
  \<lparr> sample_rate_r = 2, window_size_r = 1, window_samples = 2, window_padded = 4,
    hop_size_r = 1, hop_divisor_r = 1, fft_padding = 1, fft_size_r = 3,
    main_buffer_r = mb, sidechain_buffer_r = sb, input_write_pos = 0,
    output_buffer_r = ob, output_read_pos = rp,
    phases_r = ph, overlap_buffer = ov \<rparr>"

text \<open>
  The same for the engine constructed with sample rate 4, a window of 1000 ms,
  hop divisor 1 and padding 1: window of 4 samples, padded to 8, hop of 2
  samples, 5 bins, latency of 2 samples, output buffer of 10 samples.
\<close>

definition small ::
  "real list \<Rightarrow> real list \<Rightarrow> real list \<Rightarrow> real list \<Rightarrow> real list \<Rightarrow> int \<Rightarrow> reassign_engine"
where
  "small mb sb ph ov ob rp =
  \<lparr> sample_rate_r = 4, window_size_r = 1, window_samples = 4, window_padded = 8,
    hop_size_r = 2, hop_divisor_r = 1, fft_padding = 1, fft_size_r = 5,
    main_buffer_r = mb, sidechain_buffer_r = sb, input_write_pos = 0,
    output_buffer_r = ob, output_read_pos = rp,
    phases_r = ph, overlap_buffer = ov \<rparr>"

text \<open>
  The states of the CDF engine constructed with sample rate 3, a window of
  1000 ms, hop divisor 1 and FFT multiplier 1 (window and hop of 3 samples,
  transform of 4 samples, 3 bins, Hann window \<open>0, 1, 0\<close>, overlap-add buffer
  of 6 samples), as a function of the input buffers, the cursors and the
  overlap-add buffer.
\<close>

definition three ::
  "real list \<Rightarrow> real list \<Rightarrow> int \<Rightarrow> int \<Rightarrow> real list \<Rightarrow> int \<Rightarrow> cdf_engine"
where
  "three mb sb wp sib ola owp =
  \<lparr> sample_rate = 3, window_size = 3, hop_size = 3, fft_size = 4, num_bins = 3,
    main_buffer = mb, sidechain_buffer = sb, output_buffer = [0, 0, 0],
    buffer_write_pos = wp, buffer_read_pos = 0, samples_in_buffer = sib,
    window = [0, 1, 0], phases = [0, 0, 0], ola_buffer = ola, ola_write_pos = owp \<rparr>"

section \<open>Properties of the CDF transport map\<close>

lemma c_div_2_bounds:
  assumes "left \<le> right"
  shows "left \<le> c_div (left + right) 2" and "c_div (left + right) 2 \<le> right"
proof -
  have "c_div (left + right) 2 = (if 0 \<le> left + right then (left + right) div 2
                                  else - ((- (left + right)) div 2))"
    by (simp add: c_div_def sgn_if)
  with assms show "left \<le> c_div (left + right) 2" and "c_div (left + right) 2 \<le> right"
    by (auto split: if_splits)
qed

lemma fold_add_nth: "fold (\<lambda>i s. s + (f i :: real)) js a = a + sum_list (map f js)"
  by (induction js arbitrary: a) simp_all

lemma spectrum_sum_eq: "spectrum_sum N mag = (\<Sum>j<nat N. mag ! j)"
  by (simp add: spectrum_sum_def fold_add_nth interv_sum_list_conv_sum_set_nat atLeast0LessThan)

lemma length_cdf_loop [simp]: "length (cdf_loop mag tot js c) = length js"
  by (induction js arbitrary: c) simp_all

lemma cdf_loop_nth:
  "n < length js \<Longrightarrow> cdf_loop mag tot js c ! n = c + (\<Sum>j\<leftarrow>take (Suc n) js. mag ! j / tot)"
proof (induction js arbitrary: c n)
  case Nil
  then show ?case by simp
next
  case (Cons a js)
  then show ?case by (cases n) simp_all
qed

lemma length_compute_cdf [simp]: "length (compute_cdf N mag) = nat N"
  by (simp add: compute_cdf_def)

lemma compute_cdf_nth:
  assumes "i < nat N"
  shows "compute_cdf N mag ! i = cdf_spec N mag i"
proof -
  have "take (Suc i) [0..<nat N] = [0..<Suc i]"
    using assms by simp
  then have "compute_cdf N mag ! i = (\<Sum>j\<leftarrow>[0..<Suc i]. mag ! j / max (spectrum_sum N mag) eps)"
    using assms by (simp add: compute_cdf_def cdf_loop_nth)
  also have "\<dots> = (\<Sum>j\<le>i. mag ! j / max (spectrum_sum N mag) eps)"
  proof -
    have "set [0..<Suc i] = {..i}" by auto
    then show ?thesis
      by (simp only: sum_list_distinct_conv_sum_set [OF distinct_upt])
  qed
  finally show ?thesis
    by (simp add: cdf_spec_def spectrum_sum_eq sum_divide_distrib)
qed

lemma cdf_spec_mono:
  assumes "\<forall>y\<in>set mag. 0 \<le> y" "length mag = nat N" "a \<le> b" "b < nat N"
  shows "cdf_spec N mag a \<le> cdf_spec N mag b"
proof -
  have "(\<Sum>j\<le>a. mag ! j) \<le> (\<Sum>j\<le>b. mag ! j)"
    using assms by (intro sum_mono2) auto
  moreover have "0 < max (\<Sum>j<nat N. mag ! j) eps"
    by (simp add: eps_def less_max_iff_disj)
  ultimately show ?thesis
    by (simp add: cdf_spec_def divide_right_mono)
qed

lemma binary_search_correct:
  assumes "\<And>a b. a \<le> b \<Longrightarrow> b < nat N \<Longrightarrow> cdf ! a \<le> cdf ! b"
    and "0 < N"
    and "0 \<le> left" "right < N" "left \<le> right + 1"
    and "\<And>j. j < nat left \<Longrightarrow> cdf ! j < thr"
    and "\<And>j. right < int j \<Longrightarrow> j < nat N \<Longrightarrow> thr \<le> cdf ! j"
    and "result = min (right + 1) (N - 1)"
  shows "0 \<le> binary_search cdf thr left right result
       \<and> binary_search cdf thr left right result < N
       \<and> (\<forall>j < nat (binary_search cdf thr left right result). cdf ! j < thr)
       \<and> ((\<exists>j < nat N. thr \<le> cdf ! j) \<longrightarrow> thr \<le> cdf ! nat (binary_search cdf thr left right result))
       \<and> ((\<forall>j < nat N. cdf ! j < thr) \<longrightarrow> binary_search cdf thr left right result = N - 1)"
  using assms
proof (induction cdf thr left right result rule: binary_search.induct)
  case (1 cdf_Y thr left right result)
  note mono = "1.prems"(1) and Npos = "1.prems"(2) and l0 = "1.prems"(3)
    and rN = "1.prems"(4) and lr1 = "1.prems"(5) and below = "1.prems"(6)
    and above = "1.prems"(7) and res = "1.prems"(8)
  show ?case
  proof (cases "left \<le> right")
    case False
    with lr1 have lr: "left = right + 1" by simp
    have bs: "binary_search cdf_Y thr left right result = result"
      using False by (simp add: binary_search.simps)
    show ?thesis
    proof (cases "left \<le> N - 1")
      case True
      then have r: "result = left" using lr res by simp
      have "thr \<le> cdf_Y ! nat left"
        using above[of "nat left"] True lr l0 by simp
      moreover have "\<not> (\<forall>j < nat N. cdf_Y ! j < thr)"
        using calculation True l0 by (auto intro!: exI[of _ "nat left"] simp: not_less)
      ultimately show ?thesis
        using bs r l0 True below by auto
    next
      case False
      then have r: "result = N - 1" and l: "left = N" using lr rN res by simp_all
      have "\<And>j. j < nat N \<Longrightarrow> cdf_Y ! j < thr"
        using below l by simp
      then show ?thesis
        using bs r l Npos by (auto simp: not_le dest: leD)
    qed
  next
    case True
    define mid where "mid = c_div (left + right) 2"
    have mb: "left \<le> mid" "mid \<le> right"
      using c_div_2_bounds[OF True] by (simp_all add: mid_def)
    then have m0: "0 \<le> mid" "mid < N" using l0 rN by simp_all
    show ?thesis
    proof (cases "cdf_Y ! nat mid \<ge> thr")
      case ge: True
      have bs: "binary_search cdf_Y thr left right result = binary_search cdf_Y thr left (mid - 1) mid"
        using True ge by (subst binary_search.simps) (simp add: mid_def Let_def)
      have above': "\<And>j. mid - 1 < int j \<Longrightarrow> j < nat N \<Longrightarrow> thr \<le> cdf_Y ! j"
      proof -
        fix j assume "mid - 1 < int j" "j < nat N"
        then have "cdf_Y ! nat mid \<le> cdf_Y ! j"
          using m0 by (intro mono) simp_all
        with ge show "thr \<le> cdf_Y ! j" by simp
      qed
      have a: "mid - 1 < N" "left \<le> mid - 1 + 1" "mid = min (mid - 1 + 1) (N - 1)"
        using m0 mb by simp_all
      show ?thesis
        unfolding bs
      proof (rule "1.IH"(1)[OF True mid_def ge])
        show "\<And>a b. a \<le> b \<Longrightarrow> b < nat N \<Longrightarrow> cdf_Y ! a \<le> cdf_Y ! b" by (rule mono)
        show "\<And>j. j < nat left \<Longrightarrow> cdf_Y ! j < thr" by (rule below)
        show "\<And>j. mid - 1 < int j \<Longrightarrow> j < nat N \<Longrightarrow> thr \<le> cdf_Y ! j" by (rule above')
      qed (use Npos l0 a in simp_all)
    next
      case lt: False
      have bs: "binary_search cdf_Y thr left right result = binary_search cdf_Y thr (mid + 1) right result"
        using True lt by (subst binary_search.simps) (simp add: mid_def Let_def)
      have below': "\<And>j. j < nat (mid + 1) \<Longrightarrow> cdf_Y ! j < thr"
      proof -
        fix j assume "j < nat (mid + 1)"
        then have "cdf_Y ! j \<le> cdf_Y ! nat mid"
          using m0 by (intro mono) simp_all
        with lt show "cdf_Y ! j < thr" by simp
      qed
      have a: "0 \<le> mid + 1" "mid + 1 \<le> right + 1" using m0 mb by simp_all
      show ?thesis
        unfolding bs
      proof (rule "1.IH"(2)[OF True mid_def lt])
        show "\<And>a b. a \<le> b \<Longrightarrow> b < nat N \<Longrightarrow> cdf_Y ! a \<le> cdf_Y ! b" by (rule mono)
        show "\<And>j. j < nat (mid + 1) \<Longrightarrow> cdf_Y ! j < thr" by (rule below')
        show "\<And>j. right < int j \<Longrightarrow> j < nat N \<Longrightarrow> thr \<le> cdf_Y ! j" by (rule above)
      qed (use Npos rN a res in simp_all)
    qed
  qed
qed

lemma length_computeTransportMap: "length (computeTransportMap N mag_X mag_Y) = nat N"
  by (simp add: computeTransportMap_def)

lemma binary_search_from_start:
  fixes cdf :: "real list"
  assumes mono: "\<And>a b. a \<le> b \<Longrightarrow> b < nat N \<Longrightarrow> cdf ! a \<le> cdf ! b" and "0 < N"
  shows "0 \<le> binary_search cdf thr 0 (N - 1) (N - 1) \<and> binary_search cdf thr 0 (N - 1) (N - 1) < N
       \<and> (\<forall>j < nat (binary_search cdf thr 0 (N - 1) (N - 1)). cdf ! j < thr)
       \<and> ((\<exists>j < nat N. thr \<le> cdf ! j) \<longrightarrow> thr \<le> cdf ! nat (binary_search cdf thr 0 (N - 1) (N - 1)))
       \<and> ((\<forall>j < nat N. cdf ! j < thr) \<longrightarrow> binary_search cdf thr 0 (N - 1) (N - 1) = N - 1)"
proof (rule binary_search_correct [where N = N and cdf = "cdf" and thr = thr
      and left = 0 and right = "N - 1" and result = "N - 1"])
  show "\<And>a b. a \<le> b \<Longrightarrow> b < nat N \<Longrightarrow> cdf ! a \<le> cdf ! b" by (rule mono)
  show "0 < N" by (rule assms(2))
  show "(0::int) \<le> 0" by simp
  show "N - 1 < N" by simp
  show "0 \<le> N - 1 + 1" using assms(2) by simp
  show "\<And>j. j < nat 0 \<Longrightarrow> cdf ! j < thr" by simp
  show "\<And>j. N - 1 < int j \<Longrightarrow> j < nat N \<Longrightarrow> thr \<le> cdf ! j"
    using assms(2) by (simp add: nat_less_iff)
  have "N - 1 = min (N - 1 + 1) (N - 1)" by simp
  then show "N - 1 = min (N - 1 + 1) (N - 1)" .
qed

lemma computeTransportMap_nth:
  fixes mag_X mag_Y :: "real list" and N :: int and i :: nat
  assumes "0 < N" "length mag_Y = nat N" "\<forall>y\<in>set mag_Y. 0 \<le> y" "i < nat N"
  defines "t \<equiv> computeTransportMap N mag_X mag_Y ! i"
    and "thr \<equiv> cdf_spec N mag_X i - eps"
  shows "0 \<le> t \<and> t < N
       \<and> (\<forall>j < nat t. cdf_spec N mag_Y j < thr)
       \<and> ((\<exists>j < nat N. thr \<le> cdf_spec N mag_Y j) \<longrightarrow> thr \<le> cdf_spec N mag_Y (nat t))
       \<and> ((\<forall>j < nat N. cdf_spec N mag_Y j < thr) \<longrightarrow> t = N - 1)"
proof -
  let ?cdf = "compute_cdf N mag_Y"
  have t: "t = binary_search ?cdf thr 0 (N - 1) (N - 1)"
    using assms(4) by (simp add: t_def thr_def computeTransportMap_def compute_cdf_nth)
  have mono: "\<And>a b. a \<le> b \<Longrightarrow> b < nat N \<Longrightarrow> ?cdf ! a \<le> ?cdf ! b"
    using cdf_spec_mono[OF assms(3,2)] by (simp add: compute_cdf_nth)
  have bs: "0 \<le> t \<and> t < N
       \<and> (\<forall>j < nat t. ?cdf ! j < thr)
       \<and> ((\<exists>j < nat N. thr \<le> ?cdf ! j) \<longrightarrow> thr \<le> ?cdf ! nat t)
       \<and> ((\<forall>j < nat N. ?cdf ! j < thr) \<longrightarrow> t = N - 1)"
    unfolding t
  proof (rule binary_search_from_start)
    show "\<And>a b. a \<le> b \<Longrightarrow> b < nat N \<Longrightarrow> ?cdf ! a \<le> ?cdf ! b" by (rule mono)
    show "0 < N" by (rule assms(1))
  qed
  then have t0: "0 \<le> t" and tN: "t < N" by blast+
  have "\<forall>j < nat t. cdf_spec N mag_Y j < thr"
  proof (intro allI impI)
    fix j assume j: "j < nat t"
    then have "?cdf ! j < thr" using bs by blast
    moreover have "j < nat N" using j t0 tN by arith
    ultimately show "cdf_spec N mag_Y j < thr" by (simp add: compute_cdf_nth)
  qed
  moreover have "(\<exists>j < nat N. thr \<le> cdf_spec N mag_Y j) \<longrightarrow> thr \<le> cdf_spec N mag_Y (nat t)"
  proof
    assume "\<exists>j < nat N. thr \<le> cdf_spec N mag_Y j"
    then have "\<exists>j < nat N. thr \<le> ?cdf ! j" by (auto simp: compute_cdf_nth)
    then have "thr \<le> ?cdf ! nat t" using bs by blast
    moreover have "nat t < nat N" using t0 tN by arith
    ultimately show "thr \<le> cdf_spec N mag_Y (nat t)" by (simp add: compute_cdf_nth)
  qed
  moreover have "(\<forall>j < nat N. cdf_spec N mag_Y j < thr) \<longrightarrow> t = N - 1"
  proof
    assume "\<forall>j < nat N. cdf_spec N mag_Y j < thr"
    then have "\<forall>j < nat N. ?cdf ! j < thr" by (simp add: compute_cdf_nth)
    then show "t = N - 1" using bs by blast
  qed
  ultimately show ?thesis using bs by blast
qed

text \<open>
  Claim C6, as amended. For magnitude spectra of length \<open>N > 0\<close> whose target has
  no negative entry, the builder returns \<open>N\<close> entries; the cumulative
  distributions it computes are the ones of the specification (total clamped to
  at least \<open>\<epsilon>\<close>); every \<open>T[i]\<close> lies in \<open>[0, N)\<close>; no index below \<open>T[i]\<close>
  satisfies \<open>F_Y[j] \<ge> F_X[i] - \<epsilon>\<close>; and \<open>T[i]\<close> satisfies it when some index
  does, and is \<open>N - 1\<close> otherwise. So \<open>T[i]\<close> is the smallest such index when
  there is one.
\<close>

theorem C6_transport_map:
  assumes "0 < N" "length mag_X = nat N" "length mag_Y = nat N"
    and "\<forall>y\<in>set mag_Y. 0 \<le> y" "i < nat N"
  shows "length (computeTransportMap N mag_X mag_Y) = nat N
       \<and> compute_cdf N mag_X ! i = cdf_spec N mag_X i
       \<and> compute_cdf N mag_Y ! i = cdf_spec N mag_Y i
       \<and> 0 \<le> computeTransportMap N mag_X mag_Y ! i
       \<and> computeTransportMap N mag_X mag_Y ! i < N
       \<and> (\<forall>j < nat (computeTransportMap N mag_X mag_Y ! i).
             cdf_spec N mag_Y j < cdf_spec N mag_X i - eps)
       \<and> (if \<exists>j < nat N. cdf_spec N mag_Y j \<ge> cdf_spec N mag_X i - eps
          then cdf_spec N mag_Y (nat (computeTransportMap N mag_X mag_Y ! i))
                 \<ge> cdf_spec N mag_X i - eps
          else computeTransportMap N mag_X mag_Y ! i = N - 1)"
proof -
  note nth = computeTransportMap_nth[OF assms(1,3,4,5), of mag_X]
  have a: "\<not> (\<exists>j < nat N. cdf_spec N mag_Y j \<ge> cdf_spec N mag_X i - eps)
        \<Longrightarrow> computeTransportMap N mag_X mag_Y ! i = N - 1"
  proof -
    assume "\<not> (\<exists>j < nat N. cdf_spec N mag_Y j \<ge> cdf_spec N mag_X i - eps)"
    then have "\<forall>j < nat N. cdf_spec N mag_Y j < cdf_spec N mag_X i - eps"
      by (simp add: not_le)
    with nth show ?thesis by blast
  qed
  have b: "(\<exists>j < nat N. cdf_spec N mag_Y j \<ge> cdf_spec N mag_X i - eps)
        \<Longrightarrow> cdf_spec N mag_Y (nat (computeTransportMap N mag_X mag_Y ! i))
                 \<ge> cdf_spec N mag_X i - eps"
    using nth by blast
  have c: "compute_cdf N mag_X ! i = cdf_spec N mag_X i" "compute_cdf N mag_Y ! i = cdf_spec N mag_Y i"
    using assms(5) by (simp_all add: compute_cdf_nth)
  have d: "0 \<le> computeTransportMap N mag_X mag_Y ! i" "computeTransportMap N mag_X mag_Y ! i < N"
    "\<forall>j < nat (computeTransportMap N mag_X mag_Y ! i).
             cdf_spec N mag_Y j < cdf_spec N mag_X i - eps"
    using nth by blast+
  show ?thesis
    using a b c d length_computeTransportMap[of N mag_X mag_Y] by (simp split: if_split)
qed

lemmas eval_defs = computeTransportMap_def compute_cdf_def spectrum_sum_def eps_def
  binary_search.simps c_div_def upt_conv_Cons cdf_spec_def

text \<open>
  Claim C6, witness: the spectra \<open>[1, 2, 1]\<close> and \<open>[2, 0, 2]\<close>, where source bin 1
  is mapped to target bin 2, the first whose cumulative mass reaches
  \<open>3/4 - \<epsilon>\<close>.
\<close>

theorem C6_transport_map_witness:
  "computeTransportMap 3 [1, 2, 1] [2, 0, 2] = [0, 2, 2]
     \<and> cdf_spec 3 [2, 0, 2] 1 < cdf_spec 3 [1, 2, 1] 1 - eps
     \<and> cdf_spec 3 [2, 0, 2] 2 \<ge> cdf_spec 3 [1, 2, 1] 1 - eps
     \<and> computeTransportMap 3 [1, 2, 1] [2, 0, 2] ! 1 < 3"
proof -
  have h: "(0::int) < 3" "length [1, 2, 1::real] = nat 3" "length [2, 0, 2::real] = nat 3"
    "\<forall>y\<in>set [2, 0, 2::real]. 0 \<le> y" "1 < nat 3"
    by simp_all
  from C6_transport_map [OF h]
  have a: "computeTransportMap 3 [1, 2, 1] [2, 0, 2] ! 1 < 3"
    by blast
  have b: "computeTransportMap 3 [1, 2, 1] [2, 0, 2] = [0, 2, 2]"
    by (simp add: eval_defs)
  have c: "cdf_spec 3 [2, 0, 2] 1 < cdf_spec 3 [1, 2, 1] 1 - eps"
    "cdf_spec 3 [2, 0, 2] 2 \<ge> cdf_spec 3 [1, 2, 1] 1 - eps"
    by (simp_all add: cdf_spec_def eps_def lessThan_Suc atMost_Suc numeral_3_eq_3 numeral_2_eq_2)
  from a b c show ?thesis by blast
qed

text \<open>
  Claim C6, counterexample to the claim as stated: with the source \<open>[1]\<close> and
  the silent target \<open>[0]\<close> the builder returns \<open>T[0] = 0\<close>, and
  \<open>F_Y[0] \<ge> F_X[0] - \<epsilon>\<close> does not hold: no index satisfies it.
\<close>

theorem C6_silent_target_counterexample:
  "\<not> (cdf_spec 1 [0] (nat (computeTransportMap 1 [1] [0] ! 0)) \<ge> cdf_spec 1 [1] 0 - eps)"
  by (simp add: eval_defs)

text \<open>
  Claim C4, as amended. The CDF engine has no silence short-circuit:
  \<^verbatim>\<open>interpolateSpectrum\<close> calls the builder for every pair of spectra, and the
  builder clamps a silent total to \<open>\<epsilon>\<close>. For a numerically silent target (no
  negative entry, total below \<open>\<epsilon>\<close>) it maps every source bin \<open>i\<close> with
  \<open>F_X[i] - \<epsilon> > S_Y / \<epsilon>\<close> to the last bin \<open>N - 1\<close>.
\<close>

theorem C4_silent_target_map:
  assumes "0 < N" "length mag_X = nat N" "length mag_Y = nat N"
    and "\<forall>y\<in>set mag_Y. 0 \<le> y" "spectrum_sum N mag_Y < eps" "i < nat N"
    and "spectrum_sum N mag_Y / eps < cdf_spec N mag_X i - eps"
  shows "computeTransportMap N mag_X mag_Y ! i = N - 1"
proof -
  have "\<forall>j < nat N. cdf_spec N mag_Y j < cdf_spec N mag_X i - eps"
  proof (intro allI impI)
    fix j assume j: "j < nat N"
    have "(\<Sum>l\<le>j. mag_Y ! l) \<le> (\<Sum>l<nat N. mag_Y ! l)"
      using assms(3,4) j by (intro sum_mono2) auto
    then have "cdf_spec N mag_Y j \<le> spectrum_sum N mag_Y / eps"
      using assms(5) by (simp add: cdf_spec_def spectrum_sum_eq max_def divide_right_mono eps_def)
    with assms(7) show "cdf_spec N mag_Y j < cdf_spec N mag_X i - eps" by simp
  qed
  with computeTransportMap_nth[OF assms(1,3,4,6), of mag_X] show ?thesis by blast
qed

section \<open>Silent spectra in the CDF engine\<close>


text \<open>
  Claim C4, counterexample to the claim as stated: the source \<open>[1, 0]\<close> and the
  silent target \<open>[0, 0]\<close> at \<open>k = 1/2\<close>. A short-circuit would return the source
  scaled by \<open>1 - k\<close>, that is \<open>[1/2, 0]\<close>; the interpolator deposits through the
  map \<open>[1, 1]\<close> that the builder returns, and yields \<open>[1/4, 1/4]\<close>.
\<close>

theorem C4_no_short_circuit_counterexample:
  "spectrum_sum 2 [0, 0] < eps
   \<and> spec_silence_short_circuit 2 [1, 0] [0, 0] (1 / 2) = Some [1 / 2, 0]
   \<and> computeTransportMap 2 [1, 0] [0, 0] = [1, 1]
   \<and> fst (interpolateSpectrum 2 [1, 0] [0, 0] [0, 0] [0, 0] (1 / 2)) = [1 / 4, 1 / 4]"
  by code_simp

text \<open>
  Claim C4, witness: the source \<open>[1, 0]\<close> and the silent target \<open>[0, 0]\<close>; bin 0
  is mapped to the last bin.
\<close>

theorem C4_silent_target_map_witness:
  "spectrum_sum 2 [0, 0] < eps \<and> computeTransportMap 2 [1, 0] [0, 0] ! 0 = 2 - 1"
proof -
  have h: "(0::int) < 2" "length [1, 0::real] = nat 2" "length [0, 0::real] = nat 2"
    "\<forall>y\<in>set [0, 0::real]. 0 \<le> y" "spectrum_sum 2 [0, 0] < eps" "0 < nat 2"
    "spectrum_sum 2 [0, 0] / eps < cdf_spec 2 [1, 0] 0 - eps"
    by (simp_all add: spectrum_sum_eq cdf_spec_def eps_def lessThan_Suc numeral_2_eq_2)
  from C4_silent_target_map [OF h] h(5) show ?thesis by simp
qed

section \<open>Spectra of one bin\<close>




section \<open>The dispatcher of the CDF engine\<close>

lemma cdf_hop_config [simp]: "cdf_config (cdf_hop chain k st) = cdf_config st"
  by (simp add: cdf_hop_def cdf_config_def Let_def)

lemma cdf_sample_config [simp]: "cdf_config (fst (cdf_sample chain k st x)) = cdf_config st"
  by (simp add: cdf_sample_def cdf_config_def Let_def cdf_hop_def)

lemma cdf_process_with_config [simp]:
  "cdf_config (fst (cdf_process_with chain st xs k)) = cdf_config st"
proof (induction xs arbitrary: st)
  case Nil
  then show ?case by simp
next
  case (Cons x xs)
  have "cdf_config (fst (cdf_process_with chain (fst (cdf_sample chain k st x)) xs k)) = cdf_config st"
    using Cons.IH[of "fst (cdf_sample chain k st x)"] by simp
  then show ?case by (simp add: case_prod_unfold)
qed

lemma cdf_process_with_append:
  "cdf_process_with chain st (xs @ ys) k =
     (case cdf_process_with chain st xs k of
        (st1, out1) \<Rightarrow>
          (case cdf_process_with chain st1 ys k of
             (st2, out2) \<Rightarrow> (st2, out1 @ out2)))"
  by (induction xs arbitrary: st) (simp_all add: case_prod_unfold)

lemma cdf_hop_chain_cong:
  "window_size st1 = window_size st \<Longrightarrow> fft_size st1 = fft_size st \<Longrightarrow> num_bins st1 = num_bins st
   \<Longrightarrow> window st1 = window st \<Longrightarrow> cdf_hop_chain E st1 = cdf_hop_chain E st"
  by (intro ext) (simp add: cdf_hop_chain_def computeSTFT_def computeISTFT_def)

lemma cdf_hop_chain_config:
  "cdf_config st1 = cdf_config st \<Longrightarrow> cdf_hop_chain E st1 = cdf_hop_chain E st"
  by (rule cdf_hop_chain_cong) (simp_all add: cdf_config_def)

lemma cdf_process_append:
  "cdf_process E st (xs @ ys) k =
     (case cdf_process E st xs k of
        (st1, out1) \<Rightarrow>
          (case cdf_process E st1 ys k of
             (st2, out2) \<Rightarrow> (st2, out1 @ out2)))"
proof -
  have "cdf_hop_chain E (fst (cdf_process_with (cdf_hop_chain E st) st xs k)) = cdf_hop_chain E st"
    by (rule cdf_hop_chain_config) simp
  then show ?thesis
    by (simp add: cdf_process_def cdf_process_with_append case_prod_unfold)
qed

lemma cdf_process_latency:
  "cdf_getLatencySamples (fst (cdf_process E st xs k)) = cdf_getLatencySamples st"
proof -
  have "cdf_config (fst (cdf_process E st xs k)) = cdf_config st"
    by (simp add: cdf_process_def)
  then show ?thesis by (simp add: cdf_getLatencySamples_def cdf_config_def)
qed

lemma cdf_process_phases: "phases (fst (cdf_process E st xs k)) = phases st"
proof -
  have "cdf_config (fst (cdf_process E st xs k)) = cdf_config st"
    by (simp add: cdf_process_def)
  then show ?thesis by (simp add: cdf_config_def)
qed

lemma cdf_sample_phases_update:
  "cdf_sample chain k (st\<lparr>phases := p\<rparr>) x =
     (case cdf_sample chain k st x of (st1, y) \<Rightarrow> (st1\<lparr>phases := p\<rparr>, y))"
  by (simp add: cdf_sample_def cdf_hop_def Let_def case_prod_unfold)

lemma cdf_process_with_phases_update:
  "cdf_process_with chain (st\<lparr>phases := p\<rparr>) xs k =
     (case cdf_process_with chain st xs k of (st1, ys) \<Rightarrow> (st1\<lparr>phases := p\<rparr>, ys))"
  by (induction xs arbitrary: st) (simp_all add: cdf_sample_phases_update case_prod_unfold)

lemma cdf_process_phases_update:
  "cdf_process E (st\<lparr>phases := p\<rparr>) xs k =
     (case cdf_process E st xs k of (st1, ys) \<Rightarrow> (st1\<lparr>phases := p\<rparr>, ys))"
proof -
  have "cdf_hop_chain E (st\<lparr>phases := p\<rparr>) = cdf_hop_chain E st"
    by (rule cdf_hop_chain_cong) simp_all
  then show ?thesis by (simp add: cdf_process_def cdf_process_with_phases_update case_prod_unfold)
qed

section \<open>The dispatcher of the reassignment engine\<close>

lemma processHop_config [simp]: "reassign_config (processHop chain k st) = reassign_config st"
  by (simp add: processHop_def reassign_config_def case_prod_unfold)

lemma copy_samples_config [simp]: "reassign_config (copy_samples st samples) = reassign_config st"
  by (simp add: copy_samples_def reassign_config_def Let_def)

lemma shift_inputs_config [simp]: "reassign_config (shift_inputs st) = reassign_config st"
  by (simp add: shift_inputs_def reassign_config_def)

lemma reassign_block_config [simp]:
  "reassign_config (reassign_block chain k st samples) = reassign_config st"
  by (simp add: reassign_block_def Let_def)

lemma reassign_loop_config:
  "reassign_loop chain k st samples = Some st1 \<Longrightarrow> reassign_config st1 = reassign_config st"
proof (induction chain k st samples rule: reassign_loop.induct)
  case (1 chain k st samples)
  show ?case
  proof (cases "samples = []")
    case True
    with "1.prems" show ?thesis by (simp add: reassign_loop.simps)
  next
    case False
    show ?thesis
    proof (cases "samples_to_copy st samples < 0
              \<or> (samples_to_copy st samples = 0 \<and> hop_size_r st \<le> 0)")
      case True
      with False "1.prems" show ?thesis by (simp add: reassign_loop.simps)
    next
      case g: False
      from "1.prems" False g
      have "reassign_loop chain k (reassign_block chain k st samples)
             (drop (nat (samples_to_copy st samples)) samples) = Some st1"
        by (subst (asm) reassign_loop.simps) simp
      from "1.IH"[OF False g this] show ?thesis by simp
    qed
  qed
qed

lemma read_output_config [simp]: "reassign_config (fst (read_output st n)) = reassign_config st"
proof (induction n arbitrary: st)
  case 0
  then show ?case by simp
next
  case (Suc n)
  have "reassign_config (st\<lparr> output_buffer_r := (output_buffer_r st)[nat (output_read_pos st) := 0],
                  output_read_pos :=
                    int (nat (output_read_pos st + 1) mod length (output_buffer_r st)) \<rparr>)
        = reassign_config st"
    by (simp add: reassign_config_def)
  with Suc.IH show ?case by (simp add: case_prod_unfold)
qed

lemma reassign_process_with_config:
  "reassign_process_with chain st samples k = Some (st1, ys) \<Longrightarrow> reassign_config st1 = reassign_config st"
proof -
  assume "reassign_process_with chain st samples k = Some (st1, ys)"
  then obtain s where l: "reassign_loop chain k st samples = Some s"
    and r: "read_output s (length samples) = (st1, ys)"
    by (auto simp: reassign_process_with_def split: option.splits)
  have "reassign_config (fst (read_output s (length samples))) = reassign_config s"
    by simp
  with r have "reassign_config st1 = reassign_config s" by simp
  with reassign_loop_config [OF l] show ?thesis by simp
qed

lemma reassign_latency_config:
  "reassign_config st1 = reassign_config st \<Longrightarrow> reassign_getLatencySamples st1 = reassign_getLatencySamples st"
  by (simp add: reassign_config_def reassign_getLatencySamples_def)

subsection \<open>Runs of the small engine\<close>

lemma align_2_2: "align_window 2 2 = 2"
  by (simp add: align_window.simps c_rem_def c_div_def)

lemma st0: "reassign_new 2 1000 1 1 =
  \<lparr> sample_rate_r = 2, window_size_r = 1, window_samples = 2, window_padded = 4,
    hop_size_r = 1, hop_divisor_r = 1, fft_padding = 1, fft_size_r = 3,
    main_buffer_r = [0, 0, 0], sidechain_buffer_r = [0, 0, 0], input_write_pos = 0,
    output_buffer_r = [0, 0, 0, 0, 0], output_read_pos = 0,
    phases_r = [0, 0, 0], overlap_buffer = [0, 0, 0] \<rparr>"
  by (simp add: reassign_new_def c_round_def align_2_2 c_div_def Let_def numeral_eq_Suc)




lemma tiny_new: "reassign_new 2 1000 1 1 = tiny [0, 0, 0] [0, 0, 0] [0, 0, 0] [0, 0, 0] [0, 0, 0, 0, 0] 0"
  by (simp add: st0 tiny_def)

lemma tiny_fields [simp]:
  "hop_size_r (tiny mb sb ph ov ob rp) = 1"
  "input_write_pos (tiny mb sb ph ov ob rp) = 0"
  "window_samples (tiny mb sb ph ov ob rp) = 2"
  by (simp_all add: tiny_def)

lemma tiny_samples_to_copy [simp]:
  "samples_to_copy (tiny mb sb ph ov ob rp) (x # xs) = 1"
  by (simp add: samples_to_copy_def Let_def)

lemma tiny_copy:
  "copy_samples (tiny [m0, m1, m2] [s0, s1, s2] ph ov ob rp) ((x, y) # xs)
     = (tiny [m0, x, m2] [s0, y, s2] ph ov ob rp)\<lparr> input_write_pos := 1 \<rparr>"
  by (simp add: copy_samples_def Let_def) (simp add: tiny_def)

lemma tiny_hop:
  assumes "chain mb sb ph ov k = (h, ph1, ov1)"
  shows "processHop chain k ((tiny mb sb ph ov [o0, o1, o2, o3, o4] rp)\<lparr> input_write_pos := 1 \<rparr>)
     = (tiny mb sb ph1 ov1 ([o0, o1, o2, o3, o4][nat (rp + 1) mod 5 := h ! 0]) rp)\<lparr> input_write_pos := 1 \<rparr>"
  by (simp add: processHop_def tiny_def assms reassign_getLatencySamples_def)

lemma tiny_shift:
  "shift_inputs ((tiny [m0, m1, m2] [s0, s1, s2] ph ov ob rp)\<lparr> input_write_pos := 1 \<rparr>)
     = tiny [m1, m2, 0] [s1, s2, 0] ph ov ob rp"
  by (simp add: shift_inputs_def tiny_def shift_left_def)

lemma tiny_block:
  assumes "chain [m0, x, m2] [s0, y, s2] ph ov k = (h, ph1, ov1)"
  shows "reassign_block chain k (tiny [m0, m1, m2] [s0, s1, s2] ph ov [o0, o1, o2, o3, o4] rp) ((x, y) # xs)
       = tiny [x, m2, 0] [y, s2, 0] ph1 ov1 ([o0, o1, o2, o3, o4][nat (rp + 1) mod 5 := h ! 0]) rp"
proof -
  have "reassign_block chain k (tiny [m0, m1, m2] [s0, s1, s2] ph ov [o0, o1, o2, o3, o4] rp) ((x, y) # xs)
      = shift_inputs (processHop chain k
          ((tiny [m0, x, m2] [s0, y, s2] ph ov [o0, o1, o2, o3, o4] rp)\<lparr> input_write_pos := 1 \<rparr>))"
    unfolding reassign_block_def tiny_copy Let_def by (simp add: tiny_def)
  also have "\<dots> = tiny [x, m2, 0] [y, s2, 0] ph1 ov1 ([o0, o1, o2, o3, o4][nat (rp + 1) mod 5 := h ! 0]) rp"
    unfolding tiny_hop [where chain = chain, OF assms] by (rule tiny_shift)
  finally show ?thesis .
qed

lemma tiny_step:
  assumes "chain [m0, x, m2] [s0, y, s2] ph ov k = (h, ph1, ov1)"
  shows "reassign_loop chain k (tiny [m0, m1, m2] [s0, s1, s2] ph ov [o0, o1, o2, o3, o4] rp) ((x, y) # xs)
       = reassign_loop chain k
           (tiny [x, m2, 0] [y, s2, 0] ph1 ov1 ([o0, o1, o2, o3, o4][nat (rp + 1) mod 5 := h ! 0]) rp) xs"
  by (subst reassign_loop.simps) (simp add: tiny_block [where chain = chain, OF assms])

lemma tiny_done: "reassign_loop chain k st [] = Some st"
  by (simp add: reassign_loop.simps)

lemma tiny_read:
  "read_output (tiny mb sb ph ov ob rp) (Suc n) =
     (case read_output (tiny mb sb ph ov (ob[nat rp := 0]) (int (nat (rp + 1) mod length ob))) n of
        (st1, ys) \<Rightarrow> (st1, ob ! nat rp # ys))"
  by (simp add: tiny_def)

section \<open>Constructed engines\<close>

lemma cdf_new_44100: "window_size (cdf_new 44100 100 4 2) = 4410"
  by (simp add: cdf_new_def static_cast_int_def Let_def)

lemma log8: "\<lceil>log 2 (8::real)\<rceil> = 3"
proof -
  have "log 2 (2 ^ 3) = (3::real)" by (subst log_nat_power) simp_all
  then show ?thesis by simp
qed

lemma cdf_new_8:
  "window_size (cdf_new 8 1000 4 2) = 8" "fft_size (cdf_new 8 1000 4 2) = 16"
  "num_bins (cdf_new 8 1000 4 2) = 9" "sample_rate (cdf_new 8 1000 4 2) = 8"
  "phases (cdf_new 8 1000 4 2) = replicate 9 0"
  by (simp_all add: cdf_new_def static_cast_int_def Let_def log8 c_div_def)

section \<open>Latency\<close>

text \<open>
  Claim C1. The CDF engine reports half its window length, which the
  constructor sets to the truncation of \<open>window_ms \<cdot> sample_rate / 1000\<close>; the
  reassignment engine reports \<open>(2 \<cdot> hop_divisor - 1) \<cdot> hop_size\<close>; the CDF engine
  constructed with \<open>(44100, 100, 4, 2)\<close> reports 2205; and a call of
  \<^verbatim>\<open>process\<close> leaves the reported latency of either engine as it was.
\<close>

theorem C1_latency_samples:
  "cdf_getLatencySamples (cdf_new sr wms hdiv fm) = c_div (window_size (cdf_new sr wms hdiv fm)) 2
   \<and> window_size (cdf_new sr wms hdiv fm) = static_cast_int (wms * sr / 1000)
   \<and> reassign_getLatencySamples (reassign_new sr wms hdiv fp)
       = (2 * hdiv - 1) * hop_size_r (reassign_new sr wms hdiv fp)
   \<and> cdf_getLatencySamples (cdf_new 44100 100 4 2) = 2205
   \<and> cdf_getLatencySamples (fst (cdf_process E st xs k)) = cdf_getLatencySamples st
   \<and> (\<forall>st1 ys. reassign_process E st' xs k = Some (st1, ys)
         \<longrightarrow> reassign_getLatencySamples st1 = reassign_getLatencySamples st')"
proof -
  have a: "cdf_getLatencySamples (cdf_new sr wms hdiv fm) = c_div (window_size (cdf_new sr wms hdiv fm)) 2"
    by (simp add: cdf_getLatencySamples_def)
  have b: "window_size (cdf_new sr wms hdiv fm) = static_cast_int (wms * sr / 1000)"
    by (simp add: cdf_new_def Let_def)
  have c: "reassign_getLatencySamples (reassign_new sr wms hdiv fp)
       = (2 * hdiv - 1) * hop_size_r (reassign_new sr wms hdiv fp)"
    by (simp add: reassign_getLatencySamples_def reassign_new_def Let_def)
  have d: "cdf_getLatencySamples (cdf_new 44100 100 4 2) = 2205"
    by (simp add: cdf_getLatencySamples_def cdf_new_44100 c_div_def)
  have e: "\<forall>st1 ys. reassign_process E st' xs k = Some (st1, ys)
         \<longrightarrow> reassign_getLatencySamples st1 = reassign_getLatencySamples st'"
    unfolding reassign_process_def
    using reassign_process_with_config reassign_latency_config by blast
  from a b c d e cdf_process_latency show ?thesis by blast
qed

lemma tiny_one_sample:
  "reassign_process_with chain (reassign_new 2 1000 1 1) [(x, y)] k
     = Some (tiny [x, 0, 0] [y, 0, 0]
               (fst (snd (chain [0, x, 0] [0, y, 0] [0, 0, 0] [0, 0, 0] k)))
               (snd (snd (chain [0, x, 0] [0, y, 0] [0, 0, 0] [0, 0, 0] k)))
               [0, fst (chain [0, x, 0] [0, y, 0] [0, 0, 0] [0, 0, 0] k) ! 0, 0, 0, 0] 1, [0])"
proof -
  obtain h p v where r: "chain [0, x, 0] [0, y, 0] [0, 0, 0] [0, 0, 0] k = (h, p, v)"
    by (cases "chain [0, x, 0] [0, y, 0] [0, 0, 0] [0, 0, 0] k") auto
  have "reassign_loop chain k (reassign_new 2 1000 1 1) [(x, y)]
      = reassign_loop chain k (tiny [x, 0, 0] [y, 0, 0] p v [0, h ! 0, 0, 0, 0] 0) []"
    unfolding tiny_new tiny_step [where chain = chain, OF r] by simp
  then have "reassign_process_with chain (reassign_new 2 1000 1 1) [(x, y)] k
      = Some (read_output (tiny [x, 0, 0] [y, 0, 0] p v [0, h ! 0, 0, 0, 0] 0) (Suc 0))"
    by (simp add: reassign_process_with_def tiny_done)
  then show ?thesis
    unfolding tiny_read by (simp add: r)
qed

text \<open>
  Claim C1, witness: a call of \<^verbatim>\<open>process\<close> that returns, on the reassignment
  engine constructed with \<open>(2, 1000, 1, 1)\<close>; the latency is 1 sample before and
  after.
\<close>

theorem C1_latency_samples_witness:
  "map_option (reassign_getLatencySamples \<circ> fst)
     (reassign_process dft_external (reassign_new 2 1000 1 1) [(1, 1)] (1 / 2)) = Some 1"
proof -
  let ?chain = "reassign_hop_chain dft_external (reassign_new 2 1000 1 1)"
  let ?r = "?chain [0, 1, 0] [0, 1, 0] [0, 0, 0] [0, 0, 0] (1 / 2)"
  let ?st1 = "tiny [1, 0, 0] [1, 0, 0] (fst (snd ?r)) (snd (snd ?r)) [0, fst ?r ! 0, 0, 0, 0] 1"
  have run: "reassign_process dft_external (reassign_new 2 1000 1 1) [(1, 1)] (1 / 2)
      = Some (?st1, [0])"
    unfolding reassign_process_def by (rule tiny_one_sample)
  from C1_latency_samples [where E = dft_external and st' = "reassign_new 2 1000 1 1"
      and xs = "[(1, 1)]" and k = "1 / 2"]
  have "\<forall>st1 ys. reassign_process dft_external (reassign_new 2 1000 1 1) [(1, 1)] (1 / 2) = Some (st1, ys)
         \<longrightarrow> reassign_getLatencySamples st1 = reassign_getLatencySamples (reassign_new 2 1000 1 1)"
    by blast
  with run have "reassign_getLatencySamples ?st1 = reassign_getLatencySamples (reassign_new 2 1000 1 1)"
    by blast
  moreover have "reassign_getLatencySamples (reassign_new 2 1000 1 1) = 1"
    by (simp add: tiny_new tiny_def reassign_getLatencySamples_def)
  ultimately have "reassign_getLatencySamples ?st1 = 1"
    by simp
  then show ?thesis
    unfolding run by simp
qed

section \<open>The phase vector of the CDF engine\<close>

text \<open>
  Claim C8, counterexample to the claim as stated: the CDF engine constructed
  with \<open>(8, 1000, 4, 2)\<close> processes one hop; entry 1 of its phase vector is
  still 0, where an advance by \<open>freq \<cdot> window_size / 2\<close> would give \<open>1/4\<close>.
\<close>

theorem C8_phase_vector_counterexample:
  "phases (fst (cdf_process dft_external (cdf_new 8 1000 4 2) [(1, 1), (1, 1)] (1 / 2))) ! 1 = 0
   \<and> phases (cdf_new 8 1000 4 2) ! 1 + spec_phase_advance (cdf_new 8 1000 4 2) 1 = 1 / 4"
  by (simp add: cdf_process_phases cdf_new_8 spec_phase_advance_def)

text \<open>
  Claim C8, as amended. \<^verbatim>\<open>process\<close> of the CDF engine neither writes nor
  reads the phase vector \<^verbatim>\<open>phases_\<close>: the vector is the same after every call,
  and a call started with another phase vector returns the same output and the
  same state but for that vector. No phase is carried from one hop to the next.
\<close>

theorem C8_phase_vector_unused:
  "phases (fst (cdf_process E st xs k)) = phases st
   \<and> cdf_process E (st\<lparr>phases := p\<rparr>) xs k
       = (case cdf_process E st xs k of (st1, ys) \<Rightarrow> (st1\<lparr>phases := p\<rparr>, ys))"
  using cdf_process_phases cdf_process_phases_update by blast

section \<open>Block sizes\<close>

text \<open>
  The CDF engine is independent of the block size: one call on the
  concatenated input is the two consecutive calls.
\<close>

lemma cdf_block_size_independence:
  "cdf_process E st (xs @ ys) k = cdf_two_calls E st xs ys k"
  by (simp add: cdf_two_calls_def cdf_process_append)

section \<open>The reassignment engine with a window of four samples\<close>

subsection \<open>The dispatcher\<close>

lemma align_4_2: "align_window 4 2 = 4"
  by (simp add: align_window.simps c_rem_def c_div_def)

lemma small_new:
  "reassign_new 4 1000 1 1
     = small [0, 0, 0, 0, 0, 0] [0, 0, 0, 0, 0, 0] [0, 0, 0, 0, 0] [0, 0, 0, 0, 0, 0]
         [0, 0, 0, 0, 0, 0, 0, 0, 0, 0] 0"
  by (simp add: reassign_new_def c_round_def align_4_2 c_div_def Let_def numeral_eq_Suc small_def)

lemma small_reset:
  "reassign_reset (reassign_new 4 1000 1 1) = reassign_new 4 1000 1 1"
  unfolding small_new by (simp add: reassign_reset_def small_def numeral_eq_Suc)

lemma small_fields [simp]:
  "hop_size_r (small mb sb ph ov ob rp) = 2"
  "input_write_pos (small mb sb ph ov ob rp) = 0"
  "window_samples (small mb sb ph ov ob rp) = 4"
  "window_padded (small mb sb ph ov ob rp) = 8"
  "fft_size_r (small mb sb ph ov ob rp) = 5"
  "hop_divisor_r (small mb sb ph ov ob rp) = 1"
  "sample_rate_r (small mb sb ph ov ob rp) = 4"
  "window_size_r (small mb sb ph ov ob rp) = 1"
  by (simp_all add: small_def)

lemma small_samples_to_copy [simp]:
  "samples_to_copy (small mb sb ph ov ob rp) (x1 # x2 # xs) = 2"
  by (simp add: samples_to_copy_def Let_def)

lemma small_copy:
  "copy_samples (small [m0, m1, m2, m3, m4, m5] [s0, s1, s2, s3, s4, s5] ph ov ob rp)
       ((x1, y1) # (x2, y2) # xs)
     = (small [m0, m1, x1, x2, m4, m5] [s0, s1, y1, y2, s4, s5] ph ov ob rp)\<lparr> input_write_pos := 2 \<rparr>"
  by (simp add: copy_samples_def Let_def numeral_2_eq_2) (simp add: small_def)

lemma upt_0_2: "[0..<2] = [0, Suc 0]"
  by (simp add: numeral_2_eq_2)

lemma small_hop:
  assumes "chain mb sb ph ov k = (h, ph1, ov1)" and "length ob = 10"
  shows "processHop chain k ((small mb sb ph ov ob rp)\<lparr> input_write_pos := 2 \<rparr>)
     = (small mb sb ph1 ov1
          (ob[nat (rp + 2) mod 10 := h ! 0, nat (rp + 3) mod 10 := h ! 1]) rp)\<lparr> input_write_pos := 2 \<rparr>"
  by (simp add: processHop_def small_def assms reassign_getLatencySamples_def upt_0_2 add.commute)

lemma small_shift:
  "shift_inputs ((small [m0, m1, m2, m3, m4, m5] [s0, s1, s2, s3, s4, s5] ph ov ob rp)\<lparr> input_write_pos := 2 \<rparr>)
     = small [m2, m3, m4, m5, 0, 0] [s2, s3, s4, s5, 0, 0] ph ov ob rp"
  by (simp add: shift_inputs_def small_def shift_left_def numeral_2_eq_2)

lemma small_block:
  assumes "chain [m0, m1, x1, x2, m4, m5] [s0, s1, y1, y2, s4, s5] ph ov k = (h, ph1, ov1)"
    and "length ob = 10"
  shows "reassign_block chain k
           (small [m0, m1, m2, m3, m4, m5] [s0, s1, s2, s3, s4, s5] ph ov ob rp)
           ((x1, y1) # (x2, y2) # xs)
       = small [x1, x2, m4, m5, 0, 0] [y1, y2, s4, s5, 0, 0] ph1 ov1
           (ob[nat (rp + 2) mod 10 := h ! 0, nat (rp + 3) mod 10 := h ! 1]) rp"
proof -
  have "reassign_block chain k
           (small [m0, m1, m2, m3, m4, m5] [s0, s1, s2, s3, s4, s5] ph ov ob rp)
           ((x1, y1) # (x2, y2) # xs)
      = shift_inputs (processHop chain k
          ((small [m0, m1, x1, x2, m4, m5] [s0, s1, y1, y2, s4, s5] ph ov ob rp)\<lparr> input_write_pos := 2 \<rparr>))"
    unfolding reassign_block_def small_copy Let_def by (simp add: small_def)
  also have "\<dots> = small [x1, x2, m4, m5, 0, 0] [y1, y2, s4, s5, 0, 0] ph1 ov1
           (ob[nat (rp + 2) mod 10 := h ! 0, nat (rp + 3) mod 10 := h ! 1]) rp"
    unfolding small_hop [where chain = chain, OF assms] by (rule small_shift)
  finally show ?thesis .
qed

lemma small_step:
  assumes "chain [m0, m1, x1, x2, m4, m5] [s0, s1, y1, y2, s4, s5] ph ov k = (h, ph1, ov1)"
    and "length ob = 10"
  shows "reassign_loop chain k
           (small [m0, m1, m2, m3, m4, m5] [s0, s1, s2, s3, s4, s5] ph ov ob rp)
           ((x1, y1) # (x2, y2) # xs)
       = reassign_loop chain k
           (small [x1, x2, m4, m5, 0, 0] [y1, y2, s4, s5, 0, 0] ph1 ov1
              (ob[nat (rp + 2) mod 10 := h ! 0, nat (rp + 3) mod 10 := h ! 1]) rp) xs"
  by (subst reassign_loop.simps) (simp add: small_block [where chain = chain, OF assms] numeral_2_eq_2)

lemma small_read:
  "read_output (small mb sb ph ov ob rp) (Suc n) =
     (case read_output (small mb sb ph ov (ob[nat rp := 0]) (int (nat (rp + 1) mod length ob))) n of
        (st1, ys) \<Rightarrow> (st1, ob ! nat rp # ys))"
  by (simp add: small_def)

subsection \<open>The window and the transforms\<close>

lemma hann_values:
  "spec_hann (1 / 2) 4 = 3 / 4" "spec_hann (- (3 / 2)) 4 = 0"
  by (simp_all add: spec_hann_def cos_60)

lemma upt_0_4: "[0..<4] = [0, 1, 2, 3]"
  by (simp add: upt_conv_Cons)

lemma upt_0_5: "[0..<5] = [0, 1, 2, 3, 4]"
  by (simp add: upt_conv_Cons)

lemma upt_0_8: "[0..<8] = [0, 1, 2, 3, 4, 5, 6, 7]"
  by (simp add: upt_conv_Cons)

lemma replicate_8: "replicate 8 x = [x, x, x, x, x, x, x, x]"
  by (simp add: numeral_eq_Suc)

lemma apply_window_small:
  "apply_window (small mb sb ph ov ob rp) w [a0, a1, a2, a3, a4, a5]
     = [0, 0, a0 * w (- (3 / 2)), a1 * w (- (1 / 2)), a2 * w (1 / 2), a3 * w (3 / 2), 0, 0]"
  by (simp add: apply_window_def c_div_def upt_0_4 Let_def replicate_8)

lemma sum8:
  "(\<Sum>j<(8::nat). f j) = f 0 + f 1 + f 2 + f 3 + f 4 + f 5 + f 6 + (f 7 :: 'a :: comm_monoid_add)"
  by (simp add: eval_nat_numeral sum.lessThan_Suc add.assoc)

lemma dft_r2c_zero: "dft_r2c (replicate n 0) = replicate (n div 2 + 1) 0"
proof -
  have "(\<Sum>j<n. complex_of_real (replicate n 0 ! j) * cis (- 2 * pi * real j * real k / real n)) = 0"
    for k
    by (rule sum.neutral) simp
  then show ?thesis
    by (simp add: dft_r2c_def map_replicate_const)
qed

lemma dft_c2r_zero: "dft_c2r n (replicate (n div 2 + 1) 0) = replicate n 0"
proof -
  have "(\<Sum>k<n. Re ((if k \<le> n div 2 then replicate (n div 2 + 1) 0 ! k
                         else cnj (replicate (n div 2 + 1) 0 ! (n - k)))
                        * cis (2 * pi * real j * real k / real n))) = 0" for j
  proof (rule sum.neutral, rule ballI)
    fix k assume "k \<in> {..<n}"
    then have k: "k < n" by simp
    show "Re ((if k \<le> n div 2 then replicate (n div 2 + 1) 0 ! k
                         else cnj (replicate (n div 2 + 1) 0 ! (n - k)))
                        * cis (2 * pi * real j * real k / real n)) = 0"
    proof (cases "k \<le> n div 2")
      case True
      then have "k < n div 2 + 1" by simp
      then have "replicate (n div 2 + 1) (0::complex) ! k = 0" by (rule nth_replicate)
      with True show ?thesis by simp
    next
      case False
      then have "n - k < n div 2 + 1" using k by arith
      then have "replicate (n div 2 + 1) (0::complex) ! (n - k) = 0" by (rule nth_replicate)
      with False show ?thesis by simp
    qed
  qed
  then show ?thesis
    unfolding dft_c2r_def by (simp only: map_replicate_const length_upt diff_zero)
qed

lemma cos_quarter_small:
  "cos (0 * pi / 4) = 1" "cos (1 * pi / 4) = sqrt 2 / 2" "cos (2 * pi / 4) = 0"
  "cos (3 * pi / 4) = - (sqrt 2 / 2)" "cos (4 * pi / 4) = - 1" "cos (5 * pi / 4) = - (sqrt 2 / 2)"
  "cos (6 * pi / 4) = 0" "cos (7 * pi / 4) = sqrt 2 / 2"
proof -
  show "cos (0 * pi / 4) = 1" by simp
  show "cos (1 * pi / 4) = sqrt 2 / 2" by (simp add: cos_45)
  show "cos (2 * pi / 4) = 0" by simp
  have "cos (3 * pi / 4) = cos (pi - pi / 4)" by (simp add: field_simps)
  then show "cos (3 * pi / 4) = - (sqrt 2 / 2)" by (simp only: cos_pi_minus cos_45)
  show "cos (4 * pi / 4) = - 1" by simp
  have "cos (5 * pi / 4) = cos (pi / 4 + pi)" by (simp add: field_simps)
  then show "cos (5 * pi / 4) = - (sqrt 2 / 2)" by (simp only: cos_periodic_pi cos_45)
  have "cos (6 * pi / 4) = cos (pi / 2 + pi)" by (simp add: field_simps)
  then show "cos (6 * pi / 4) = 0" by (simp only: cos_periodic_pi cos_pi_half)
  have "cos (7 * pi / 4) = cos (- (pi / 4) + 2 * pi)" by (simp add: field_simps)
  then show "cos (7 * pi / 4) = sqrt 2 / 2" by (simp only: cos_periodic cos_minus cos_45)
qed

lemma cos_quarter:
  "cos (real m * pi / 4) =
     (if m mod 8 = 0 then 1 else if m mod 8 = 1 then sqrt 2 / 2 else if m mod 8 = 2 then 0
      else if m mod 8 = 3 then - (sqrt 2 / 2) else if m mod 8 = 4 then - 1
      else if m mod 8 = 5 then - (sqrt 2 / 2) else if m mod 8 = 6 then 0 else sqrt 2 / 2)"
proof -
  have "m = m mod 8 + 8 * (m div 8)" by simp
  then have "real m = real (m mod 8) + 8 * real (m div 8)"
    by (metis of_nat_add of_nat_mult of_nat_numeral)
  then have "real m * pi / 4 = real (m mod 8) * pi / 4 + 2 * real (m div 8) * pi"
    by (simp add: field_simps)
  then have "cos (real m * pi / 4) = cos (real (m mod 8) * pi / 4 + 2 * real (m div 8) * pi)"
    by (rule arg_cong)
  also have "\<dots> = cos (real (m mod 8) * pi / 4)"
    by (simp only: cos_add cos_2npi sin_2npi mult_1_right mult_zero_right diff_zero)
  finally have e: "cos (real m * pi / 4) = cos (real (m mod 8) * pi / 4)" .
  have "m mod 8 < 8" by simp
  then consider "m mod 8 = 0" | "m mod 8 = 1" | "m mod 8 = 2" | "m mod 8 = 3"
    | "m mod 8 = 4" | "m mod 8 = 5" | "m mod 8 = 6" | "m mod 8 = 7"
    by arith
  then show ?thesis
  proof cases
    case 1 then show ?thesis unfolding e by simp
  next
    case 2 then show ?thesis unfolding e using cos_quarter_small(2) by simp
  next
    case 3 then show ?thesis unfolding e using cos_quarter_small(3) by simp
  next
    case 4 then show ?thesis unfolding e using cos_quarter_small(4) by simp
  next
    case 5 then show ?thesis unfolding e using cos_quarter_small(5) by simp
  next
    case 6 then show ?thesis unfolding e using cos_quarter_small(6) by simp
  next
    case 7 then show ?thesis unfolding e using cos_quarter_small(7) by simp
  next
    case 8 then show ?thesis unfolding e using cos_quarter_small(8) by simp
  qed
qed

lemma r2c_term:
  "complex_of_real a * cis (- 2 * pi * real 4 * real k / real 8) = complex_of_real (a * (- 1) ^ k)"
proof -
  have "- 2 * pi * real 4 * real k / real 8 = - (real k * pi)" by simp
  then show ?thesis by (simp add: complex_eq_iff)
qed

lemma dft_r2c_impulse:
  "dft_r2c [0, 0, 0, 0, 3 / 4, 0, 0, 0] = [3 / 4, - (3 / 4), 3 / 4, - (3 / 4), 3 / 4]"
proof -
  have len: "length [0, 0, 0, 0, 3 / 4, 0, 0, 0::real] = 8" by simp
  have nth: "[0, 0, 0, 0, 3 / 4, 0, 0, 0::real] ! 0 = 0" "[0, 0, 0, 0, 3 / 4, 0, 0, 0::real] ! 1 = 0"
    "[0, 0, 0, 0, 3 / 4, 0, 0, 0::real] ! 2 = 0" "[0, 0, 0, 0, 3 / 4, 0, 0, 0::real] ! 3 = 0"
    "[0, 0, 0, 0, 3 / 4, 0, 0, 0::real] ! 4 = 3 / 4" "[0, 0, 0, 0, 3 / 4, 0, 0, 0::real] ! 5 = 0"
    "[0, 0, 0, 0, 3 / 4, 0, 0, 0::real] ! 6 = 0" "[0, 0, 0, 0, 3 / 4, 0, 0, 0::real] ! 7 = 0"
    by simp_all
  have bins: "[0..<8 div 2 + 1] = [0, 1, 2, 3, 4::nat]" by (simp add: upt_conv_Cons)
  show ?thesis
    unfolding dft_r2c_def len bins list.map sum8 nth r2c_term
    by (simp add: complex_eq_iff)
qed

lemma c2r_term:
  "Re (y * cis (2 * pi * real j * real k / real 8))
     = Re y * cos (real (j * k) * pi / 4) - Im y * sin (real (j * k) * pi / 4)"
proof -
  have "2 * pi * real j * real k / real 8 = real (j * k) * pi / 4" by simp
  then have "cis (2 * pi * real j * real k / real 8) = cis (real (j * k) * pi / 4)"
    by (rule arg_cong)
  then show ?thesis by (simp only: times_complex.simps cis.simps)
qed

lemma dft_c2r_impulse:
  "dft_c2r 8 [complex_of_real c, - complex_of_real c, complex_of_real c, - complex_of_real c,
              complex_of_real c] = [0, 0, 0, 0, 8 * c, 0, 0, 0]"
  unfolding dft_c2r_def upt_0_8 list.map sum8 c2r_term cos_quarter
  by simp

subsection \<open>Analysis, interpolation and synthesis of a hop\<close>

lemma length_analyzeWindow [simp]: "length (analyzeWindow E st input) = nat (fft_size_r st)"
  by (simp add: analyzeWindow_def Let_def)

lemma val_analyzeWindow:
  "map val (analyzeWindow E st input)
     = map (\<lambda>i. r2c E (apply_window st (\<lambda>n. hann E n (window_samples st)) input) ! i)
         [0..<nat (fft_size_r st)]"
  by (simp add: analyzeWindow_def Let_def)

lemma map_nth_fun: "map (\<lambda>i. f (xs ! i)) [0..<length xs] = map f xs"
  by (rule nth_equalityI) simp_all

lemma abs_sum_vals: "abs_sum sp 0 (length sp) = sum_list (map cmod (map val sp))"
proof -
  have "abs_sum sp 0 (length sp) = sum_list (map (\<lambda>j. cmod (val (sp ! j))) [0..<length sp])"
    by (simp add: abs_sum_def fold_add_nth)
  also have "\<dots> = sum_list (map (\<lambda>p. cmod (val p)) sp)"
    by (rule arg_cong [OF map_nth_fun [of "\<lambda>p. cmod (val p)" sp]])
  finally show ?thesis by (simp add: comp_def)
qed

lemma analyze_impulse:
  "map val (analyzeWindow dft_external (small mb sb ph ov ob rp) [0, 0, 1, 0, 0, 0])
     = [3 / 4, - (3 / 4), 3 / 4, - (3 / 4), 3 / 4]"
proof -
  have "apply_window (small mb sb ph ov ob rp) (\<lambda>n. spec_hann n 4) [0, 0, 1, 0, 0, 0]
      = [0, 0, 0, 0, 3 / 4, 0, 0, 0]"
    by (simp add: apply_window_small hann_values)
  then show ?thesis
    by (simp add: val_analyzeWindow dft_external_def dft_r2c_impulse upt_0_5)
qed

lemma replicate_5: "replicate (8 div 2 + 1) x = [x, x, x, x, x]"
proof -
  have "8 div 2 + 1 = (5::nat)" by simp
  then show ?thesis by (simp add: numeral_eq_Suc)
qed

lemma replicate_2: "replicate 2 x = [x, x]"
  by (simp add: numeral_eq_Suc)

lemma dft_r2c_zero_8: "dft_r2c [0, 0, 0, 0, 0, 0, 0, 0] = [0, 0, 0, 0, 0]"
  using dft_r2c_zero [of 8] unfolding replicate_8 replicate_5 .

lemma dft_c2r_zero_8: "dft_c2r 8 [0, 0, 0, 0, 0] = [0, 0, 0, 0, 0, 0, 0, 0]"
  using dft_c2r_zero [of 8] unfolding replicate_8 replicate_5 .

lemma analyze_edge:
  "map val (analyzeWindow dft_external (small mb sb ph ov ob rp) [1, 0, 0, 0, 0, 0])
     = [0, 0, 0, 0, 0]"
proof -
  have "apply_window (small mb sb ph ov ob rp) (\<lambda>n. spec_hann n 4) [1, 0, 0, 0, 0, 0]
      = [0, 0, 0, 0, 0, 0, 0, 0]"
    by (simp add: apply_window_small hann_values)
  then show ?thesis
    by (simp add: val_analyzeWindow dft_external_def dft_r2c_zero_8 upt_0_5)
qed

lemma analyze_silence:
  "map val (analyzeWindow dft_external (small mb sb ph ov ob rp) [0, 0, 0, 0, 0, 0])
     = [0, 0, 0, 0, 0]"
proof -
  have "apply_window (small mb sb ph ov ob rp) (\<lambda>n. spec_hann n 4) [0, 0, 0, 0, 0, 0]
      = [0, 0, 0, 0, 0, 0, 0, 0]"
    by (simp add: apply_window_small)
  then show ?thesis
    by (simp add: val_analyzeWindow dft_external_def dft_r2c_zero_8 upt_0_5)
qed

lemma interpolate_both_silent:
  assumes "abs_sum left 0 (length left) < MIN_MASS_THRESHOLD"
    and "abs_sum right 0 (length right) < MIN_MASS_THRESHOLD"
  shows "interpolate left right ph ws k
           = (map (\<lambda>i. point0\<lparr> freq := freq (left ! i) \<rparr>) [0..<length left], ph)"
  unfolding interpolate_def Let_def using assms by (simp only: if_True simp_thms)

lemma interpolate_right_silent:
  assumes "\<not> abs_sum left 0 (length left) < MIN_MASS_THRESHOLD"
    and "abs_sum right 0 (length right) < MIN_MASS_THRESHOLD"
  shows "interpolate left right ph ws k
           = (map (\<lambda>i. (left ! i)\<lparr> val := val (left ! i) * complex_of_real (1 - k) \<rparr>)
                [0..<length left],
              silent_phases left ws ph)"
  unfolding interpolate_def Let_def using assms by (simp only: if_True if_False simp_thms)

lemma synthesize_small:
  "synthesizeWindow dft_external (small mb sb ph ov ob rp) spectrum [v0, v1, v2, v3, v4, v5]
     = ([v0 + dft_c2r 8 (map val spectrum) ! 2 / 8, v1 + dft_c2r 8 (map val spectrum) ! 3 / 8],
        [v2 + dft_c2r 8 (map val spectrum) ! 4 / 8, v3 + dft_c2r 8 (map val spectrum) ! 5 / 8,
         v4, v5, 0, 0])"
  by (simp add: synthesizeWindow_def Let_def dft_external_def c_div_def upt_0_4 upt_0_2
        isfinite_def map_nth_fun replicate_2)


lemma chain_hop1:
  "fst (reassign_hop_chain dft_external (small mb sb ph' ov' ob rp)
          [0, 0, 1, 0, 0, 0] [0, 0, 0, 0, 0, 0] ph [0, 0, 0, 0, 0, 0] k) = [0, 0]"
  "snd (snd (reassign_hop_chain dft_external (small mb sb ph' ov' ob rp)
          [0, 0, 1, 0, 0, 0] [0, 0, 0, 0, 0, 0] ph [0, 0, 0, 0, 0, 0] k))
     = [3 / 4 * (1 - k), 0, 0, 0, 0, 0]"
proof -
  let ?st = "small mb sb ph' ov' ob rp"
  let ?L = "analyzeWindow dft_external ?st [0, 0, 1, 0, 0, 0]"
  let ?R = "analyzeWindow dft_external ?st [0, 0, 0, 0, 0, 0]"
  let ?c = "complex_of_real (3 / 4 * (1 - k))"
  have l: "\<not> abs_sum ?L 0 (length ?L) < MIN_MASS_THRESHOLD"
    unfolding abs_sum_vals analyze_impulse by (simp add: MIN_MASS_THRESHOLD_def)
  have r: "abs_sum ?R 0 (length ?R) < MIN_MASS_THRESHOLD"
    unfolding abs_sum_vals analyze_silence by (simp add: MIN_MASS_THRESHOLD_def)
  have "map val (fst (interpolate ?L ?R ph 1 k))
      = map (\<lambda>v. v * complex_of_real (1 - k)) (map val ?L)"
    unfolding interpolate_right_silent [OF l r] fst_conv
    by (rule nth_equalityI) simp_all
  then have v: "map val (fst (interpolate ?L ?R ph 1 k)) = [?c, - ?c, ?c, - ?c, ?c]"
    unfolding analyze_impulse by simp
  have s: "synthesizeWindow dft_external ?st (fst (interpolate ?L ?R ph 1 k)) [0, 0, 0, 0, 0, 0]
      = ([0, 0], [3 / 4 * (1 - k), 0, 0, 0, 0, 0])"
    unfolding synthesize_small v dft_c2r_impulse by simp
  show "fst (reassign_hop_chain dft_external ?st
          [0, 0, 1, 0, 0, 0] [0, 0, 0, 0, 0, 0] ph [0, 0, 0, 0, 0, 0] k) = [0, 0]"
    unfolding reassign_hop_chain_def Let_def case_prod_unfold small_fields s by simp
  show "snd (snd (reassign_hop_chain dft_external ?st
          [0, 0, 1, 0, 0, 0] [0, 0, 0, 0, 0, 0] ph [0, 0, 0, 0, 0, 0] k))
     = [3 / 4 * (1 - k), 0, 0, 0, 0, 0]"
    unfolding reassign_hop_chain_def Let_def case_prod_unfold small_fields s by simp
qed

lemma chain_hop2:
  "reassign_hop_chain dft_external (small mb sb ph' ov' ob rp)
          [1, 0, 0, 0, 0, 0] [0, 0, 0, 0, 0, 0] ph [v, 0, 0, 0, 0, 0] k
     = ([v, 0], ph, [0, 0, 0, 0, 0, 0])"
proof -
  let ?st = "small mb sb ph' ov' ob rp"
  let ?L = "analyzeWindow dft_external ?st [1, 0, 0, 0, 0, 0]"
  let ?R = "analyzeWindow dft_external ?st [0, 0, 0, 0, 0, 0]"
  let ?Z = "map (\<lambda>i. point0\<lparr> freq := freq (?L ! i) \<rparr>) [0..<length ?L]"
  have l: "abs_sum ?L 0 (length ?L) < MIN_MASS_THRESHOLD"
    unfolding abs_sum_vals analyze_edge by (simp add: MIN_MASS_THRESHOLD_def)
  have r: "abs_sum ?R 0 (length ?R) < MIN_MASS_THRESHOLD"
    unfolding abs_sum_vals analyze_silence by (simp add: MIN_MASS_THRESHOLD_def)
  have i: "interpolate ?L ?R ph 1 k = (?Z, ph)"
    by (rule interpolate_both_silent [OF l r])
  have v: "map val ?Z = [0, 0, 0, 0, 0]"
    by (simp add: upt_0_5 point0_def)
  have s: "synthesizeWindow dft_external ?st ?Z [v, 0, 0, 0, 0, 0]
      = ([v, 0], [0, 0, 0, 0, 0, 0])"
    unfolding synthesize_small v dft_c2r_zero_8 by simp
  show ?thesis
    unfolding reassign_hop_chain_def Let_def small_fields i prod.case s by simp
qed

lemma small_chain:
  "reassign_hop_chain E (small mb sb ph ov ob rp) = reassign_hop_chain E (small mb' sb' ph' ov' ob' rp')"
  by (intro ext)
     (simp add: reassign_hop_chain_def analyzeWindow_def synthesizeWindow_def apply_window_def)

subsection \<open>One call of four samples and two calls of two samples\<close>

lemma small_run_one:
  assumes r1: "chain [0, 0, 1, 0, 0, 0] [0, 0, 0, 0, 0, 0] [0, 0, 0, 0, 0] [0, 0, 0, 0, 0, 0] k
      = ([0, 0], p1, [v, 0, 0, 0, 0, 0])"
    and r2: "chain [1, 0, 0, 0, 0, 0] [0, 0, 0, 0, 0, 0] p1 [v, 0, 0, 0, 0, 0] k
      = ([v, 0], p1, [0, 0, 0, 0, 0, 0])"
  shows "reassign_process_with chain (reassign_new 4 1000 1 1)
           [(1, 0), (0, 0), (0, 0), (0, 0)] k
       = Some (small [0, 0, 0, 0, 0, 0] [0, 0, 0, 0, 0, 0] p1 [0, 0, 0, 0, 0, 0]
                 [0, 0, 0, 0, 0, 0, 0, 0, 0, 0] 4, [0, 0, v, 0])"
proof -
  have len: "length [0, 0, 0, 0, 0, 0, 0, 0, 0, 0 :: real] = 10" by simp
  have "reassign_loop chain k (reassign_new 4 1000 1 1) [(1, 0), (0, 0), (0, 0), (0, 0)]
      = reassign_loop chain k
          (small [1, 0, 0, 0, 0, 0] [0, 0, 0, 0, 0, 0] p1 [v, 0, 0, 0, 0, 0]
             [0, 0, 0, 0, 0, 0, 0, 0, 0, 0] 0) [(0, 0), (0, 0)]"
    unfolding small_new small_step [where chain = chain, OF r1 len] by simp
  also have "\<dots> = reassign_loop chain k
          (small [0, 0, 0, 0, 0, 0] [0, 0, 0, 0, 0, 0] p1 [0, 0, 0, 0, 0, 0]
             [0, 0, v, 0, 0, 0, 0, 0, 0, 0] 0) []"
    unfolding small_step [where chain = chain, OF r2 len] by simp
  also have "\<dots> = Some (small [0, 0, 0, 0, 0, 0] [0, 0, 0, 0, 0, 0] p1 [0, 0, 0, 0, 0, 0]
             [0, 0, v, 0, 0, 0, 0, 0, 0, 0] 0)"
    by (rule tiny_done)
  finally have loop: "reassign_loop chain k (reassign_new 4 1000 1 1)
        [(1, 0), (0, 0), (0, 0), (0, 0)]
      = Some (small [0, 0, 0, 0, 0, 0] [0, 0, 0, 0, 0, 0] p1 [0, 0, 0, 0, 0, 0]
             [0, 0, v, 0, 0, 0, 0, 0, 0, 0] 0)" .
  have n: "length [(1, 0), (0, 0), (0, 0), (0::real, 0::real)] = Suc (Suc (Suc (Suc 0)))" by simp
  have rd: "read_output (small [0, 0, 0, 0, 0, 0] [0, 0, 0, 0, 0, 0] p1 [0, 0, 0, 0, 0, 0]
             [0, 0, v, 0, 0, 0, 0, 0, 0, 0] 0) (Suc (Suc (Suc (Suc 0))))
     = (small [0, 0, 0, 0, 0, 0] [0, 0, 0, 0, 0, 0] p1 [0, 0, 0, 0, 0, 0]
          [0, 0, 0, 0, 0, 0, 0, 0, 0, 0] 4, [0, 0, v, 0])"
    unfolding small_read by simp
  show ?thesis
    unfolding reassign_process_with_def loop option.case n rd ..
qed

lemma small_run_first:
  assumes r1: "chain [0, 0, 1, 0, 0, 0] [0, 0, 0, 0, 0, 0] [0, 0, 0, 0, 0] [0, 0, 0, 0, 0, 0] k
      = ([0, 0], p1, [v, 0, 0, 0, 0, 0])"
  shows "reassign_process_with chain (reassign_new 4 1000 1 1) [(1, 0), (0, 0)] k
       = Some (small [1, 0, 0, 0, 0, 0] [0, 0, 0, 0, 0, 0] p1 [v, 0, 0, 0, 0, 0]
                 [0, 0, 0, 0, 0, 0, 0, 0, 0, 0] 2, [0, 0])"
proof -
  have len: "length [0, 0, 0, 0, 0, 0, 0, 0, 0, 0 :: real] = 10" by simp
  have "reassign_loop chain k (reassign_new 4 1000 1 1) [(1, 0), (0, 0)]
      = reassign_loop chain k
          (small [1, 0, 0, 0, 0, 0] [0, 0, 0, 0, 0, 0] p1 [v, 0, 0, 0, 0, 0]
             [0, 0, 0, 0, 0, 0, 0, 0, 0, 0] 0) []"
    unfolding small_new small_step [where chain = chain, OF r1 len] by simp
  also have "\<dots> = Some (small [1, 0, 0, 0, 0, 0] [0, 0, 0, 0, 0, 0] p1 [v, 0, 0, 0, 0, 0]
             [0, 0, 0, 0, 0, 0, 0, 0, 0, 0] 0)"
    by (rule tiny_done)
  finally have loop: "reassign_loop chain k (reassign_new 4 1000 1 1) [(1, 0), (0, 0)]
      = Some (small [1, 0, 0, 0, 0, 0] [0, 0, 0, 0, 0, 0] p1 [v, 0, 0, 0, 0, 0]
             [0, 0, 0, 0, 0, 0, 0, 0, 0, 0] 0)" .
  have n: "length [(1, 0), (0::real, 0::real)] = Suc (Suc 0)" by simp
  have rd: "read_output (small [1, 0, 0, 0, 0, 0] [0, 0, 0, 0, 0, 0] p1 [v, 0, 0, 0, 0, 0]
             [0, 0, 0, 0, 0, 0, 0, 0, 0, 0] 0) (Suc (Suc 0))
     = (small [1, 0, 0, 0, 0, 0] [0, 0, 0, 0, 0, 0] p1 [v, 0, 0, 0, 0, 0]
          [0, 0, 0, 0, 0, 0, 0, 0, 0, 0] 2, [0, 0])"
    unfolding small_read by simp
  show ?thesis
    unfolding reassign_process_with_def loop option.case n rd ..
qed

lemma small_run_second:
  assumes r2: "chain [1, 0, 0, 0, 0, 0] [0, 0, 0, 0, 0, 0] p1 [v, 0, 0, 0, 0, 0] k
      = ([v, 0], p1, [0, 0, 0, 0, 0, 0])"
  shows "reassign_process_with chain
           (small [1, 0, 0, 0, 0, 0] [0, 0, 0, 0, 0, 0] p1 [v, 0, 0, 0, 0, 0]
              [0, 0, 0, 0, 0, 0, 0, 0, 0, 0] 2) [(0, 0), (0, 0)] k
       = Some (small [0, 0, 0, 0, 0, 0] [0, 0, 0, 0, 0, 0] p1 [0, 0, 0, 0, 0, 0]
                 [0, 0, 0, 0, v, 0, 0, 0, 0, 0] 4, [0, 0])"
proof -
  have len: "length [0, 0, 0, 0, 0, 0, 0, 0, 0, 0 :: real] = 10" by simp
  have "reassign_loop chain k
          (small [1, 0, 0, 0, 0, 0] [0, 0, 0, 0, 0, 0] p1 [v, 0, 0, 0, 0, 0]
             [0, 0, 0, 0, 0, 0, 0, 0, 0, 0] 2) [(0, 0), (0, 0)]
      = reassign_loop chain k
          (small [0, 0, 0, 0, 0, 0] [0, 0, 0, 0, 0, 0] p1 [0, 0, 0, 0, 0, 0]
             [0, 0, 0, 0, v, 0, 0, 0, 0, 0] 2) []"
    unfolding small_step [where chain = chain, OF r2 len] by simp
  also have "\<dots> = Some (small [0, 0, 0, 0, 0, 0] [0, 0, 0, 0, 0, 0] p1 [0, 0, 0, 0, 0, 0]
             [0, 0, 0, 0, v, 0, 0, 0, 0, 0] 2)"
    by (rule tiny_done)
  finally have loop: "reassign_loop chain k
          (small [1, 0, 0, 0, 0, 0] [0, 0, 0, 0, 0, 0] p1 [v, 0, 0, 0, 0, 0]
             [0, 0, 0, 0, 0, 0, 0, 0, 0, 0] 2) [(0, 0), (0, 0)]
      = Some (small [0, 0, 0, 0, 0, 0] [0, 0, 0, 0, 0, 0] p1 [0, 0, 0, 0, 0, 0]
             [0, 0, 0, 0, v, 0, 0, 0, 0, 0] 2)" .
  have n: "length [(0, 0), (0::real, 0::real)] = Suc (Suc 0)" by simp
  have rd: "read_output (small [0, 0, 0, 0, 0, 0] [0, 0, 0, 0, 0, 0] p1 [0, 0, 0, 0, 0, 0]
             [0, 0, 0, 0, v, 0, 0, 0, 0, 0] 2) (Suc (Suc 0))
     = (small [0, 0, 0, 0, 0, 0] [0, 0, 0, 0, 0, 0] p1 [0, 0, 0, 0, 0, 0]
          [0, 0, 0, 0, v, 0, 0, 0, 0, 0] 4, [0, 0])"
    unfolding small_read by simp
  show ?thesis
    unfolding reassign_process_with_def loop option.case n rd ..
qed

lemma small_impulse:
  "map_option snd (reassign_process dft_external (reassign_new 4 1000 1 1)
     [(1, 0), (0, 0), (0, 0), (0, 0)] k) = Some [0, 0, 3 / 4 * (1 - k), 0]"
  "map_option snd (reassign_two_calls dft_external (reassign_new 4 1000 1 1)
     [(1, 0), (0, 0)] [(0, 0), (0, 0)] k) = Some [0, 0, 0, 0]"
proof -
  define chain where "chain = reassign_hop_chain dft_external (reassign_new 4 1000 1 1)"
  define p1 where "p1 = fst (snd (chain [0, 0, 1, 0, 0, 0] [0, 0, 0, 0, 0, 0] [0, 0, 0, 0, 0]
                            [0, 0, 0, 0, 0, 0] k))"
  define v where "v = 3 / 4 * (1 - k)"
  have r1: "chain [0, 0, 1, 0, 0, 0] [0, 0, 0, 0, 0, 0] [0, 0, 0, 0, 0] [0, 0, 0, 0, 0, 0] k
      = ([0, 0], p1, [v, 0, 0, 0, 0, 0])"
    unfolding p1_def v_def chain_def small_new
    by (rule prod_eqI) (simp_all add: chain_hop1 prod_eq_iff)
  have r2: "chain [1, 0, 0, 0, 0, 0] [0, 0, 0, 0, 0, 0] p1 [v, 0, 0, 0, 0, 0] k
      = ([v, 0], p1, [0, 0, 0, 0, 0, 0])"
    unfolding chain_def small_new by (rule chain_hop2)
  have c: "reassign_hop_chain dft_external (small mb sb ph ov ob rp) = chain" for mb sb ph ov ob rp
    unfolding chain_def small_new by (rule small_chain)
  have one: "reassign_process dft_external (reassign_new 4 1000 1 1)
               [(1, 0), (0, 0), (0, 0), (0, 0)] k
      = Some (small [0, 0, 0, 0, 0, 0] [0, 0, 0, 0, 0, 0] p1 [0, 0, 0, 0, 0, 0]
                 [0, 0, 0, 0, 0, 0, 0, 0, 0, 0] 4, [0, 0, v, 0])"
    unfolding reassign_process_def chain_def [symmetric]
    by (rule small_run_one [where chain = chain, OF r1 r2])
  have first: "reassign_process dft_external (reassign_new 4 1000 1 1) [(1, 0), (0, 0)] k
      = Some (small [1, 0, 0, 0, 0, 0] [0, 0, 0, 0, 0, 0] p1 [v, 0, 0, 0, 0, 0]
                 [0, 0, 0, 0, 0, 0, 0, 0, 0, 0] 2, [0, 0])"
    unfolding reassign_process_def chain_def [symmetric]
    by (rule small_run_first [where chain = chain, OF r1])
  have second: "reassign_process dft_external
           (small [1, 0, 0, 0, 0, 0] [0, 0, 0, 0, 0, 0] p1 [v, 0, 0, 0, 0, 0]
              [0, 0, 0, 0, 0, 0, 0, 0, 0, 0] 2) [(0, 0), (0, 0)] k
       = Some (small [0, 0, 0, 0, 0, 0] [0, 0, 0, 0, 0, 0] p1 [0, 0, 0, 0, 0, 0]
                 [0, 0, 0, 0, v, 0, 0, 0, 0, 0] 4, [0, 0])"
    unfolding reassign_process_def c
    by (rule small_run_second [where chain = chain, OF r2])
  show "map_option snd (reassign_process dft_external (reassign_new 4 1000 1 1)
     [(1, 0), (0, 0), (0, 0), (0, 0)] k) = Some [0, 0, 3 / 4 * (1 - k), 0]"
    unfolding one v_def by simp
  show "map_option snd (reassign_two_calls dft_external (reassign_new 4 1000 1 1)
     [(1, 0), (0, 0)] [(0, 0), (0, 0)] k) = Some [0, 0, 0, 0]"
    unfolding reassign_two_calls_def first option.case prod.case second by simp
qed

text \<open>
  Claim C9, the code at a failing input. The reassignment engine constructed
  with \<open>(4, 1000, 1, 1)\<close> and reset has a window of 4 samples, a hop of 2
  samples and a latency of \<open>L = 2\<close> samples. The main stream is the impulse
  \<open>1, 0, 0, 0\<close>, the sidechain is silent and \<open>k = 1/2\<close>. One call of
  \<^verbatim>\<open>process\<close> with the 4 samples returns \<open>0, 0, 3/8, 0\<close>; two consecutive
  calls with 2 samples each return \<open>0, 0\<close> and \<open>0, 0\<close>. With the first
  \<open>L\<close> samples discarded the two outputs are \<open>3/8, 0\<close> and \<open>0, 0\<close>:
  they differ. \<^verbatim>\<open>processHop\<close> writes every hop of one call at
  \<^verbatim>\<open>output_read_pos_ + L\<close>, and the cursor moves only when the call ends, so
  the second hop of the single call lands on the cells of the first one, where
  the split calls put it one hop later.
\<close>

theorem C9_reassign_block_size_dependence:
  "reassign_getLatencySamples (reassign_reset (reassign_new 4 1000 1 1)) = 2
   \<and> map_option snd
         (reassign_process dft_external (reassign_reset (reassign_new 4 1000 1 1))
            [(1, 0), (0, 0), (0, 0), (0, 0)] (1 / 2))
       = Some [0, 0, 3 / 8, 0]
   \<and> map_option snd
         (reassign_two_calls dft_external (reassign_reset (reassign_new 4 1000 1 1))
            [(1, 0), (0, 0)] [(0, 0), (0, 0)] (1 / 2))
       = Some [0, 0, 0, 0]
   \<and> map_option (drop 2 \<circ> snd)
         (reassign_process dft_external (reassign_reset (reassign_new 4 1000 1 1))
            [(1, 0), (0, 0), (0, 0), (0, 0)] (1 / 2))
       \<noteq> map_option (drop 2 \<circ> snd)
           (reassign_two_calls dft_external (reassign_reset (reassign_new 4 1000 1 1))
              [(1, 0), (0, 0)] [(0, 0), (0, 0)] (1 / 2))"
proof -
  have l: "reassign_getLatencySamples (reassign_new 4 1000 1 1) = 2"
    unfolding small_new by (simp add: reassign_getLatencySamples_def)
  have d: "map_option (drop 2 \<circ> snd) x = map_option (drop 2) (map_option snd x)"
    for x :: "(reassign_engine \<times> real list) option"
    by (simp add: option.map_comp)
  show ?thesis
    unfolding small_reset d small_impulse l by simp
qed

section \<open>The CDF engine with a window of three samples\<close>

subsection \<open>The dispatcher\<close>








subsection \<open>The transforms and a hop\<close>

lemma three_fields [simp]:
  "window_size (three mb sb wp sib ola owp) = 3"
  "fft_size (three mb sb wp sib ola owp) = 4"
  "num_bins (three mb sb wp sib ola owp) = 3"
  "window (three mb sb wp sib ola owp) = [0, 1, 0]"
  by (simp_all add: three_def)









lemma Arg_one: "Arg 1 = 0"
  by (rule cis_Arg_unique) simp_all







section \<open>The interpolation factor is not clamped\<close>




section \<open>Placement of a mass\<close>

lemma place_bin_length:
  "length (fst (place_bin m c s f ps input np i acc)) = length (fst acc)"
  by (cases acc) (simp add: place_bin_def Let_def case_prod_unfold)

lemma place_bin_other:
  "int i + c - int (center_bin m) \<noteq> int j
   \<Longrightarrow> fst (place_bin m c s f ps input np i acc) ! j = fst acc ! j"
  by (cases acc) (auto simp: place_bin_def Let_def case_prod_unfold nth_list_update)

lemma place_bin_skip:
  "int i + c - int (center_bin m) < 0 \<or> int (length (fst acc)) \<le> int i + c - int (center_bin m)
   \<Longrightarrow> place_bin m c s f ps input np i acc = acc"
  by (cases acc) (auto simp: place_bin_def Let_def)

lemma fold_place_bin_length:
  "length (fst (fold (place_bin m c s f ps input np) js acc)) = length (fst acc)"
  by (induction js arbitrary: acc) (simp_all add: place_bin_length)

lemma fold_place_bin_other:
  "\<forall>i\<in>set js. int i + c - int (center_bin m) \<noteq> int j
   \<Longrightarrow> fst (fold (place_bin m c s f ps input np) js acc) ! j = fst acc ! j"
  by (induction js arbitrary: acc) (simp_all add: place_bin_other)

lemma fold_place_bin_skip:
  "\<forall>i\<in>set js. int i + c - int (center_bin m) < 0
                 \<or> int (length (fst acc)) \<le> int i + c - int (center_bin m)
   \<Longrightarrow> fold (place_bin m c s f ps input np) js acc = acc"
  by (induction js arbitrary: acc) (simp_all add: place_bin_skip)

lemma place_mass_length:
  "length (fst (place_mass m c s f cp input outp np phs amps)) = length outp"
  by (simp add: place_mass_def Let_def fold_place_bin_length)

lemma place_mass_other:
  assumes "\<forall>i. left_bin m \<le> i \<and> i < right_bin m \<longrightarrow> int i + c - int (center_bin m) \<noteq> int j"
  shows "fst (place_mass m c s f cp input outp np phs amps) ! j = outp ! j"
proof -
  from assms have "\<forall>i\<in>set [left_bin m..<right_bin m]. int i + c - int (center_bin m) \<noteq> int j"
    by simp
  then show ?thesis
    by (simp add: place_mass_def Let_def fold_place_bin_other)
qed

lemma place_mass_skip:
  assumes "\<forall>i. left_bin m \<le> i \<and> i < right_bin m \<longrightarrow>
             int i + c - int (center_bin m) < 0 \<or> int (length outp) \<le> int i + c - int (center_bin m)"
  shows "place_mass m c s f cp input outp np phs amps = (outp, phs, amps)"
proof -
  from assms have "\<forall>i\<in>set [left_bin m..<right_bin m]. int i + c - int (center_bin m) < 0
      \<or> int (length (fst (outp, phs, amps))) \<le> int i + c - int (center_bin m)"
    by simp
  then show ?thesis
    by (simp add: place_mass_def Let_def fold_place_bin_skip)
qed

lemma transport_step_length:
  "length (fst (transport_step left right lms rms ws k t st)) = length (fst st)"
proof -
  obtain a b c d where st: "st = (a, b, c, d)" by (cases st) auto
  show ?thesis
    unfolding st transport_step_def Let_def case_prod_unfold fst_conv
    by (simp only: place_mass_length fst_conv snd_conv)
qed

lemma fold_transport_step_length:
  "length (fst (fold (transport_step left right lms rms ws k) T st)) = length (fst st)"
  by (induction T arbitrary: st) (simp_all add: transport_step_length)

lemma interpolate_length:
  assumes "length right = length left"
  shows "length (fst (interpolate left right phs ws k)) = length left"
proof -
  have "length (fst (fold (transport_step left right lms rms ws k) T
          (map (\<lambda>i. point0\<lparr> freq := freq (left ! i) \<rparr>) [0..<length left], phs, a, b)))
        = length left" for lms rms T a b
    by (simp add: fold_transport_step_length)
  then show ?thesis
    unfolding interpolate_def Let_def case_prod_unfold
    using assms by (simp only: if_distrib [of fst] if_distrib [of length] fst_conv length_map
        length_upt diff_zero if_cancel)
qed

text \<open>
  Claim C10. \<^verbatim>\<open>place_mass\<close> returns an output spectrum of the length it was
  given; an output bin that is not the shifted destination
  \<open>i + center_bin - mass.center_bin\<close> of a source bin \<open>i\<close> of the mass keeps its
  value; when every destination falls below 0 or at or above the output length,
  nothing is written at all; one iteration of the loop whose destination is out
  of range leaves output, phases and amplitudes as they are, so the
  contribution is dropped, neither wrapped nor moved to another bin. The
  spectrum that \<^verbatim>\<open>interpolate\<close> returns for two frames of the same length has
  that length.
\<close>

theorem C10_place_mass_in_range:
  "length (fst (place_mass m c s f cp input outp np phs amps)) = length outp
   \<and> ((\<forall>i. left_bin m \<le> i \<and> i < right_bin m \<longrightarrow> int i + c - int (center_bin m) \<noteq> int j)
        \<longrightarrow> fst (place_mass m c s f cp input outp np phs amps) ! j = outp ! j)
   \<and> ((\<forall>i. left_bin m \<le> i \<and> i < right_bin m \<longrightarrow>
            int i + c - int (center_bin m) < 0
            \<or> int (length outp) \<le> int i + c - int (center_bin m))
        \<longrightarrow> place_mass m c s f cp input outp np phs amps = (outp, phs, amps))
   \<and> (int i' + c - int (center_bin m) < 0
          \<or> int (length (fst acc)) \<le> int i' + c - int (center_bin m)
        \<longrightarrow> place_bin m c s f ps input np i' acc = acc)
   \<and> (length right = length left
        \<longrightarrow> length (fst (interpolate left right phs' ws k)) = length left)"
proof (intro conjI impI)
  show "length (fst (place_mass m c s f cp input outp np phs amps)) = length outp"
    by (rule place_mass_length)
next
  assume "\<forall>i. left_bin m \<le> i \<and> i < right_bin m \<longrightarrow> int i + c - int (center_bin m) \<noteq> int j"
  then show "fst (place_mass m c s f cp input outp np phs amps) ! j = outp ! j"
    by (rule place_mass_other)
next
  assume "\<forall>i. left_bin m \<le> i \<and> i < right_bin m \<longrightarrow>
            int i + c - int (center_bin m) < 0
            \<or> int (length outp) \<le> int i + c - int (center_bin m)"
  then show "place_mass m c s f cp input outp np phs amps = (outp, phs, amps)"
    by (rule place_mass_skip)
next
  assume "int i' + c - int (center_bin m) < 0
          \<or> int (length (fst acc)) \<le> int i' + c - int (center_bin m)"
  then show "place_bin m c s f ps input np i' acc = acc"
    by (rule place_bin_skip)
next
  assume "length right = length left"
  then show "length (fst (interpolate left right phs' ws k)) = length left"
    by (rule interpolate_length)
qed

text \<open>
  Claim C10, witness: a mass over the bins 0 and 1 of a frame of two bins. Shifted
  by one bin, bin 0 goes to bin 1 and bin 1 is dropped: output bin 0 keeps its
  value, output bin 1 receives the value 1, and the iteration for bin 1 changes
  nothing. Shifted by two bins, nothing is written.
\<close>

theorem C10_place_mass_in_range_witness:
  "fst (place_mass \<lparr> left_bin = 0, right_bin = 2, center_bin = 0, mass = 1 \<rparr> 1 1 100 0
          [point0\<lparr> val := 1 \<rparr>, point0\<lparr> val := 1 \<rparr>] [point0, point0] 0 [0, 0] [0, 0]) ! 0
     = point0
   \<and> val (fst (place_mass \<lparr> left_bin = 0, right_bin = 2, center_bin = 0, mass = 1 \<rparr> 1 1 100 0
          [point0\<lparr> val := 1 \<rparr>, point0\<lparr> val := 1 \<rparr>] [point0, point0] 0 [0, 0] [0, 0]) ! 1)
     = 1
   \<and> place_mass \<lparr> left_bin = 0, right_bin = 2, center_bin = 0, mass = 1 \<rparr> 2 1 100 0
          [point0\<lparr> val := 1 \<rparr>, point0\<lparr> val := 1 \<rparr>] [point0, point0] 0 [0, 0] [0, 0]
     = ([point0, point0], [0, 0], [0, 0])
   \<and> place_bin \<lparr> left_bin = 0, right_bin = 2, center_bin = 0, mass = 1 \<rparr> 1 1 100 0
          [point0\<lparr> val := 1 \<rparr>, point0\<lparr> val := 1 \<rparr>] 0 1 ([point0, point0], [0, 0], [0, 0])
     = ([point0, point0], [0, 0], [0, 0])
   \<and> length (fst (interpolate [point0\<lparr> val := 1 \<rparr>, point0\<lparr> val := 1 \<rparr>]
                      [point0, point0\<lparr> val := 1 \<rparr>] [0, 0] 1 (1 / 2))) = 2"
proof -
  let ?m = "\<lparr> left_bin = 0, right_bin = 2, center_bin = 0, mass = 1 \<rparr>"
  let ?I = "[point0\<lparr> val := 1 \<rparr>, point0\<lparr> val := 1 \<rparr>]"
  let ?R = "[point0, point0\<lparr> val := 1 \<rparr>]"
  let ?O = "[point0, point0]"
  have h1: "\<forall>i. left_bin ?m \<le> i \<and> i < right_bin ?m \<longrightarrow> int i + 1 - int (center_bin ?m) \<noteq> int 0"
    by simp
  have h2: "\<forall>i. left_bin ?m \<le> i \<and> i < right_bin ?m \<longrightarrow>
            int i + 2 - int (center_bin ?m) < 0 \<or> int (length ?O) \<le> int i + 2 - int (center_bin ?m)"
    by simp
  have h3: "length ?R = length ?I" by simp
  have h4: "int 1 + 1 - int (center_bin ?m) < 0
          \<or> int (length (fst (?O, [0, 0::real], [0, 0::real]))) \<le> int 1 + 1 - int (center_bin ?m)"
    by simp
  from C10_place_mass_in_range [where m = ?m and c = 1 and i' = 1
      and acc = "(?O, [0, 0], [0, 0])"] h4
  have e: "place_bin ?m 1 1 100 0 ?I 0 1 (?O, [0, 0], [0, 0]) = (?O, [0, 0], [0, 0])"
    by blast
  from C10_place_mass_in_range [where m = ?m and c = 1 and j = 0 and outp = ?O] h1
  have a: "fst (place_mass ?m 1 1 100 0 ?I ?O 0 [0, 0] [0, 0]) ! 0 = ?O ! 0"
    by blast
  from C10_place_mass_in_range [where m = ?m and c = 2 and outp = ?O] h2
  have b: "place_mass ?m 2 1 100 0 ?I ?O 0 [0, 0] [0, 0] = (?O, [0, 0], [0, 0])"
    by blast
  from C10_place_mass_in_range [where left = ?I and right = ?R] h3
  have c: "length (fst (interpolate ?I ?R [0, 0] 1 (1 / 2))) = length ?I"
    by blast
  have d: "val (fst (place_mass ?m 1 1 100 0 ?I ?O 0 [0, 0] [0, 0]) ! 1) = 1"
    by (simp add: place_mass_def place_bin_def Let_def isfinite_def LOW_FREQ_CUTOFF_def point0_def
        Arg_one upt_conv_Cons)
  from a b c d e show ?thesis by simp
qed

section \<open>The greedy matcher\<close>

lemma mass_drop_step:
  "i < length ms \<Longrightarrow>
     sum_list (map mass (drop i ms)) = mass (ms ! i) + sum_list (map mass (drop (Suc i) ms))"
  by (simp add: Cons_nth_drop_Suc [symmetric])

lemma transport_loop_sum:
  "sum_list (map (\<lambda>t. snd (snd t)) (transport_loop left right li ri lm rm T))
     = sum_list (map (\<lambda>t. snd (snd t)) T) + lm + sum_list (map mass (drop (Suc li) left))
   \<or> sum_list (map (\<lambda>t. snd (snd t)) (transport_loop left right li ri lm rm T))
     = sum_list (map (\<lambda>t. snd (snd t)) T) + rm + sum_list (map mass (drop (Suc ri) right))"
proof (induction left right li ri lm rm T rule: transport_loop.induct)
  case (1 left right li ri lm rm T)
  show ?case
  proof (cases "lm < rm")
    case True
    show ?thesis
    proof (cases "li + 1 \<ge> length left")
      case e: True
      with True show ?thesis by (subst transport_loop.simps) simp
    next
      case c: False
      then have s: "sum_list (map mass (drop (Suc li) left))
          = mass (left ! (li + 1)) + sum_list (map mass (drop (Suc (li + 1)) left))"
        using mass_drop_step [of "Suc li" left] by simp
      from "1.IH"(1) [OF True c] True c s show ?thesis
        by (subst (1 2) transport_loop.simps) auto
    qed
  next
    case False
    show ?thesis
    proof (cases "ri + 1 \<ge> length right")
      case e: True
      with False show ?thesis by (subst (1 2) transport_loop.simps) simp
    next
      case c: False
      then have s: "sum_list (map mass (drop (Suc ri) right))
          = mass (right ! (ri + 1)) + sum_list (map mass (drop (Suc (ri + 1)) right))"
        using mass_drop_step [of "Suc ri" right] by simp
      from "1.IH"(2) [OF False c] False c s show ?thesis
        by (subst (1 2) transport_loop.simps) auto
    qed
  qed
qed

lemma transport_matrix_sum:
  assumes "left \<noteq> []" and "right \<noteq> []"
  shows "sum_list (map (\<lambda>t. snd (snd t)) (transport_matrix left right)) = sum_list (map mass left)
    \<or> sum_list (map (\<lambda>t. snd (snd t)) (transport_matrix left right)) = sum_list (map mass right)"
proof -
  have l: "mass (left ! 0) + sum_list (map mass (drop (Suc 0) left)) = sum_list (map mass left)"
    using assms(1) mass_drop_step [of 0 left] by simp
  have r: "mass (right ! 0) + sum_list (map mass (drop (Suc 0) right)) = sum_list (map mass right)"
    using assms(2) mass_drop_step [of 0 right] by simp
  from transport_loop_sum [of left right 0 0 "mass (left ! 0)" "mass (right ! 0)" "[]"] l r
  show ?thesis by (simp add: transport_matrix_def)
qed

lemma transport_loop_nonneg:
  assumes "\<forall>m\<in>set left. 0 \<le> mass m" and "\<forall>m\<in>set right. 0 \<le> mass m"
    and "0 \<le> lm" and "0 \<le> rm" and "\<forall>t\<in>set T. 0 \<le> snd (snd t)"
  shows "\<forall>t\<in>set (transport_loop left right li ri lm rm T). 0 \<le> snd (snd t)"
  using assms
proof (induction left right li ri lm rm T rule: transport_loop.induct)
  case (1 left right li ri lm rm T)
  show ?case
  proof (cases "lm < rm")
    case True
    show ?thesis
    proof (cases "li + 1 \<ge> length left")
      case e: True
      with True "1.prems" show ?thesis by (subst transport_loop.simps) simp
    next
      case c: False
      then have "left ! (li + 1) \<in> set left" by simp
      with "1.prems"(1) have n: "0 \<le> mass (left ! (li + 1))" by blast
      have t: "\<forall>t\<in>set (T @ [(li, ri, lm)]). 0 \<le> snd (snd t)"
        using "1.prems"(3,5) by simp
      have r: "0 \<le> rm - lm" using True by simp
      from "1.IH"(1) [OF True c "1.prems"(1,2) n r t] True c show ?thesis
        by (subst transport_loop.simps) simp
    qed
  next
    case False
    show ?thesis
    proof (cases "ri + 1 \<ge> length right")
      case e: True
      with False "1.prems" show ?thesis by (subst transport_loop.simps) simp
    next
      case c: False
      then have "right ! (ri + 1) \<in> set right" by simp
      with "1.prems"(2) have n: "0 \<le> mass (right ! (ri + 1))" by blast
      have t: "\<forall>t\<in>set (T @ [(li, ri, rm)]). 0 \<le> snd (snd t)"
        using "1.prems"(4,5) by simp
      have l: "0 \<le> lm - rm" using False by simp
      from "1.IH"(2) [OF False c "1.prems"(1,2) l n t] False c show ?thesis
        by (subst transport_loop.simps) simp
    qed
  qed
qed

lemma transport_loop_indices:
  assumes "li < length left" and "ri < length right"
    and "\<forall>t\<in>set T. fst t < length left \<and> fst (snd t) < length right"
  shows "\<forall>t\<in>set (transport_loop left right li ri lm rm T).
           fst t < length left \<and> fst (snd t) < length right"
  using assms
proof (induction left right li ri lm rm T rule: transport_loop.induct)
  case (1 left right li ri lm rm T)
  show ?case
  proof (cases "lm < rm")
    case True
    show ?thesis
    proof (cases "li + 1 \<ge> length left")
      case e: True
      with True "1.prems" show ?thesis by (subst transport_loop.simps) simp
    next
      case c: False
      then have a: "li + 1 < length left" by simp
      have t: "\<forall>t\<in>set (T @ [(li, ri, lm)]). fst t < length left \<and> fst (snd t) < length right"
        using "1.prems" by simp
      from "1.IH"(1) [OF True c a "1.prems"(2) t] True c show ?thesis
        by (subst transport_loop.simps) simp
    qed
  next
    case False
    show ?thesis
    proof (cases "ri + 1 \<ge> length right")
      case e: True
      with False "1.prems" show ?thesis by (subst transport_loop.simps) simp
    next
      case c: False
      then have a: "ri + 1 < length right" by simp
      have t: "\<forall>t\<in>set (T @ [(li, ri, rm)]). fst t < length left \<and> fst (snd t) < length right"
        using "1.prems" by simp
      from "1.IH"(2) [OF False c "1.prems"(1) a t] False c show ?thesis
        by (subst transport_loop.simps) simp
    qed
  qed
qed

lemma transport_loop_last:
  assumes "li < length left" and "ri < length right"
  shows "transport_loop left right li ri lm rm T \<noteq> []
    \<and> (fst (last (transport_loop left right li ri lm rm T)) + 1 = length left
        \<or> fst (snd (last (transport_loop left right li ri lm rm T))) + 1 = length right)"
  using assms
proof (induction left right li ri lm rm T rule: transport_loop.induct)
  case (1 left right li ri lm rm T)
  show ?case
  proof (cases "lm < rm")
    case True
    show ?thesis
    proof (cases "li + 1 \<ge> length left")
      case e: True
      with True "1.prems" show ?thesis by (subst (1 2 3) transport_loop.simps) simp
    next
      case c: False
      then have a: "li + 1 < length left" by simp
      from "1.IH"(1) [OF True c a "1.prems"(2)] True c show ?thesis
        by (subst (1 2 3) transport_loop.simps) simp
    qed
  next
    case False
    show ?thesis
    proof (cases "ri + 1 \<ge> length right")
      case e: True
      with False "1.prems" show ?thesis by (subst (1 2 3) transport_loop.simps) simp
    next
      case c: False
      then have a: "ri + 1 < length right" by simp
      from "1.IH"(2) [OF False c "1.prems"(1) a] False c show ?thesis
        by (subst (1 2 3) transport_loop.simps) simp
    qed
  qed
qed

lemma transport_loop_greedy:
  "transport_loop left right li ri lm rm T =
     (if lm < rm
      then (if li + 1 \<ge> length left then T @ [(li, ri, min lm rm)]
            else transport_loop left right (li + 1) ri (mass (left ! (li + 1))) (rm - min lm rm)
                   (T @ [(li, ri, min lm rm)]))
      else (if ri + 1 \<ge> length right then T @ [(li, ri, min lm rm)]
            else transport_loop left right li (ri + 1) (lm - min lm rm) (mass (right ! (ri + 1)))
                   (T @ [(li, ri, min lm rm)])))"
  by (subst transport_loop.simps) (simp add: min_def)

text \<open>
  Claim C5, counterexample to the claim as stated: two lists of two masses
  \<open>1/2\<close> each. The two cursors run out in the same step, the left remainder is
  0 when the right cursor advances, and the second triple carries the mass 0,
  which is not positive.
\<close>

theorem C5_zero_mass_counterexample:
  "transport_matrix
     [\<lparr> left_bin = 0, right_bin = 1, center_bin = 0, mass = 1 / 2 \<rparr>,
      \<lparr> left_bin = 1, right_bin = 2, center_bin = 1, mass = 1 / 2 \<rparr>]
     [\<lparr> left_bin = 0, right_bin = 1, center_bin = 0, mass = 1 / 2 \<rparr>,
      \<lparr> left_bin = 1, right_bin = 2, center_bin = 1, mass = 1 / 2 \<rparr>]
     = [(0, 0, 1 / 2), (0, 1, 0), (1, 1, 1 / 2)]
   \<and> \<not> 0 < snd (snd (transport_matrix
     [\<lparr> left_bin = 0, right_bin = 1, center_bin = 0, mass = 1 / 2 \<rparr>,
      \<lparr> left_bin = 1, right_bin = 2, center_bin = 1, mass = 1 / 2 \<rparr>]
     [\<lparr> left_bin = 0, right_bin = 1, center_bin = 0, mass = 1 / 2 \<rparr>,
      \<lparr> left_bin = 1, right_bin = 2, center_bin = 1, mass = 1 / 2 \<rparr>] ! 1))"
  by (simp add: transport_matrix_def transport_loop.simps)

text \<open>
  Claim C5, as amended. For two non-empty lists of non-negative masses that sum
  to 1 each, \<^verbatim>\<open>transport_matrix\<close> starts both cursors at 0 with the first
  masses as remainders; every step emits the triple of the two cursors with the
  minimum of the two remainders, subtracts it from both and advances the cursor
  whose remainder is exhausted (the right one on a tie), stopping when that
  cursor leaves its list; the list of triples is not empty, its last triple is
  at the last mass of one of the two lists, every triple has its indices inside
  the two lists and a non-negative mass, and the masses of the triples sum to 1.
\<close>

theorem C5_transport_matrix_greedy:
  assumes "left \<noteq> []" and "right \<noteq> []"
    and "\<forall>m\<in>set left. 0 \<le> mass m" and "\<forall>m\<in>set right. 0 \<le> mass m"
    and "sum_list (map mass left) = 1" and "sum_list (map mass right) = 1"
  shows "transport_matrix left right
           = transport_loop left right 0 0 (mass (left ! 0)) (mass (right ! 0)) []
    \<and> (\<forall>li ri lm rm T. transport_loop left right li ri lm rm T =
         (if lm < rm
          then (if li + 1 \<ge> length left then T @ [(li, ri, min lm rm)]
                else transport_loop left right (li + 1) ri (mass (left ! (li + 1)))
                       (rm - min lm rm) (T @ [(li, ri, min lm rm)]))
          else (if ri + 1 \<ge> length right then T @ [(li, ri, min lm rm)]
                else transport_loop left right li (ri + 1) (lm - min lm rm)
                       (mass (right ! (ri + 1))) (T @ [(li, ri, min lm rm)]))))
    \<and> transport_matrix left right \<noteq> []
    \<and> (fst (last (transport_matrix left right)) + 1 = length left
        \<or> fst (snd (last (transport_matrix left right))) + 1 = length right)
    \<and> (\<forall>t\<in>set (transport_matrix left right).
          fst t < length left \<and> fst (snd t) < length right \<and> 0 \<le> snd (snd t))
    \<and> sum_list (map (\<lambda>t. snd (snd t)) (transport_matrix left right)) = 1"
proof -
  have l0: "0 < length left" and r0: "0 < length right" using assms(1,2) by simp_all
  have a: "transport_matrix left right
           = transport_loop left right 0 0 (mass (left ! 0)) (mass (right ! 0)) []"
    by (simp add: transport_matrix_def)
  have b: "\<forall>li ri lm rm T. transport_loop left right li ri lm rm T =
         (if lm < rm
          then (if li + 1 \<ge> length left then T @ [(li, ri, min lm rm)]
                else transport_loop left right (li + 1) ri (mass (left ! (li + 1)))
                       (rm - min lm rm) (T @ [(li, ri, min lm rm)]))
          else (if ri + 1 \<ge> length right then T @ [(li, ri, min lm rm)]
                else transport_loop left right li (ri + 1) (lm - min lm rm)
                       (mass (right ! (ri + 1))) (T @ [(li, ri, min lm rm)])))"
    using transport_loop_greedy by blast
  have c: "transport_matrix left right \<noteq> []
    \<and> (fst (last (transport_matrix left right)) + 1 = length left
        \<or> fst (snd (last (transport_matrix left right))) + 1 = length right)"
    unfolding a by (rule transport_loop_last [OF l0 r0])
  have i: "\<forall>t\<in>set (transport_matrix left right).
          fst t < length left \<and> fst (snd t) < length right"
    unfolding a by (rule transport_loop_indices [OF l0 r0]) simp
  have "left ! 0 \<in> set left" "right ! 0 \<in> set right" using l0 r0 by simp_all
  with assms(3,4) have "0 \<le> mass (left ! 0)" "0 \<le> mass (right ! 0)" by blast+
  then have n: "\<forall>t\<in>set (transport_matrix left right). 0 \<le> snd (snd t)"
    unfolding a by (intro transport_loop_nonneg [OF assms(3,4)]) simp_all
  have s: "sum_list (map (\<lambda>t. snd (snd t)) (transport_matrix left right)) = 1"
    using transport_matrix_sum [OF assms(1,2)] assms(5,6) by auto
  from a b c i n s show ?thesis by blast
qed

text \<open>
  Claim C5, witness: the masses \<open>1/4, 3/4\<close> against \<open>1/2, 1/2\<close> give the
  triples \<open>(0, 0, 1/4)\<close>, \<open>(1, 0, 1/4)\<close>, \<open>(1, 1, 1/2)\<close>, of sum 1.
\<close>

theorem C5_transport_matrix_greedy_witness:
  "transport_matrix
     [\<lparr> left_bin = 0, right_bin = 1, center_bin = 0, mass = 1 / 4 \<rparr>,
      \<lparr> left_bin = 1, right_bin = 2, center_bin = 1, mass = 3 / 4 \<rparr>]
     [\<lparr> left_bin = 0, right_bin = 1, center_bin = 0, mass = 1 / 2 \<rparr>,
      \<lparr> left_bin = 1, right_bin = 2, center_bin = 1, mass = 1 / 2 \<rparr>]
     = [(0, 0, 1 / 4), (1, 0, 1 / 4), (1, 1, 1 / 2)]
   \<and> sum_list (map (\<lambda>t. snd (snd t)) (transport_matrix
     [\<lparr> left_bin = 0, right_bin = 1, center_bin = 0, mass = 1 / 4 \<rparr>,
      \<lparr> left_bin = 1, right_bin = 2, center_bin = 1, mass = 3 / 4 \<rparr>]
     [\<lparr> left_bin = 0, right_bin = 1, center_bin = 0, mass = 1 / 2 \<rparr>,
      \<lparr> left_bin = 1, right_bin = 2, center_bin = 1, mass = 1 / 2 \<rparr>])) = 1"
proof -
  let ?L = "[\<lparr> left_bin = 0, right_bin = 1, center_bin = 0, mass = 1 / 4 \<rparr>,
      \<lparr> left_bin = 1, right_bin = 2, center_bin = 1, mass = 3 / 4 \<rparr>]"
  let ?R = "[\<lparr> left_bin = 0, right_bin = 1, center_bin = 0, mass = 1 / 2 \<rparr>,
      \<lparr> left_bin = 1, right_bin = 2, center_bin = 1, mass = 1 / 2 \<rparr>]"
  have h: "?L \<noteq> []" "?R \<noteq> []" "\<forall>m\<in>set ?L. 0 \<le> mass m" "\<forall>m\<in>set ?R. 0 \<le> mass m"
    "sum_list (map mass ?L) = 1" "sum_list (map mass ?R) = 1"
    by simp_all
  from C5_transport_matrix_greedy [OF h]
  have s: "sum_list (map (\<lambda>t. snd (snd t)) (transport_matrix ?L ?R)) = 1"
    by blast
  have e: "transport_matrix ?L ?R = [(0, 0, 1 / 4), (1, 0, 1 / 4), (1, 1, 1 / 2)]"
    by (simp add: transport_matrix_def transport_loop.simps)
  from s e show ?thesis by blast
qed

end
